theory Spec2Isabelle
  imports Complex_Main "HOL-Library.Char_ord" "HOL-Library.List_Lexorder"
begin

section \<open>Values, rows and frames\<close>

text \<open>
  A pandas cell. \<open>Null\<close> stands for NaN, None and NaT alike (everything \<open>pd.isna\<close>
  accepts). Numbers are modelled as reals. \<open>Stamp t\<close> is a timestamp, \<open>t\<close> nanoseconds
  after the epoch in UTC; \<open>Day d\<close> is a \<open>datetime.date\<close>, \<open>d\<close> days after the epoch.
  \<open>read_csv\<close> produces only \<open>Null\<close>, \<open>Num\<close>, \<open>Str\<close> and \<open>Bool\<close> cells; the other two
  are derived by the loaders.
\<close>

datatype cell = Null | Num real | Str string | Bool bool | Stamp int | Day int

text \<open>
  The ways a run ends without a value: the Python exceptions, and \<open>Stop\<close> for
  \<open>st.stop()\<close>.
\<close>

datatype py_error = KeyError string | TypeError | MergeError | ReadError string | Stop

text \<open>A list of fallible steps in order; the first exception ends it.\<close>

fun traverse :: "('a \<Rightarrow> py_error + 'b) \<Rightarrow> 'a list \<Rightarrow> py_error + 'b list" where
  "traverse f [] = Inr []"
| "traverse f (x # xs) =
     (case f x of
        Inl e \<Rightarrow> Inl e
      | Inr y \<Rightarrow> (case traverse f xs of Inl e \<Rightarrow> Inl e | Inr ys \<Rightarrow> Inr (y # ys)))"

text \<open>
  A row maps a column name to its cell; a frame lists its column names in order and its
  rows in order. A row holds \<open>Null\<close> at every name that is no column of its frame, which is
  what \<open>pd.concat\<close> fills in for a column a source lacks. The row index is not modelled.
\<close>

type_synonym row = "string \<Rightarrow> cell"

record frame =
  columns :: "string list"
  rows :: "row list"

text \<open>\<open>pd.DataFrame()\<close>\<close>

definition DataFrame :: frame where
  "DataFrame = \<lparr>columns = [], rows = []\<rparr>"

text \<open>\<open>df.empty\<close>: some axis has length 0.\<close>

definition frame_empty :: "frame \<Rightarrow> bool" where
  "frame_empty df = (columns df = [] \<or> rows df = [])"

text \<open>\<open>df[c] = f(row)\<close>: an existing column is overwritten in place, a new one is appended.\<close>

definition assign :: "string \<Rightarrow> (row \<Rightarrow> cell) \<Rightarrow> frame \<Rightarrow> frame" where
  "assign c f df =
     \<lparr>columns = (if c \<in> set (columns df) then columns df else columns df @ [c]),
      rows = map (\<lambda>r. r(c := f r)) (rows df)\<rparr>"

text \<open>\<open>df[dst] = f(df[src])\<close> elementwise; reading a missing column raises KeyError.\<close>

definition assign_from :: "string \<Rightarrow> string \<Rightarrow> (cell \<Rightarrow> cell) \<Rightarrow> frame \<Rightarrow> py_error + frame" where
  "assign_from dst src f df =
     (if src \<in> set (columns df) then Inr (assign dst (\<lambda>r. f (r src)) df)
      else Inl (KeyError src))"

text \<open>\<open>df[c]\<close>\<close>

definition getitem :: "frame \<Rightarrow> string \<Rightarrow> py_error + cell list" where
  "getitem df c =
     (if c \<in> set (columns df) then Inr (map (\<lambda>r. r c) (rows df)) else Inl (KeyError c))"

text \<open>\<open>df[mask]\<close>: the rows at which the boolean mask is True, in order.\<close>

definition loc :: "frame \<Rightarrow> bool list \<Rightarrow> frame" where
  "loc df m = df\<lparr>rows := map fst (filter snd (zip (rows df) m))\<rparr>"

text \<open>
  \<open>pd.concat(dfs, ignore_index=True)\<close>: the columns are united in order of first
  appearance and the rows stacked; a row is null at the columns its own frame lacks.
\<close>

definition restrict_row :: "string list \<Rightarrow> row \<Rightarrow> row" where
  "restrict_row cs r = (\<lambda>c. if c \<in> set cs then r c else Null)"

definition pd_concat :: "frame list \<Rightarrow> frame" where
  "pd_concat dfs =
     \<lparr>columns = remdups (concat (map columns dfs)),
      rows = concat (map (\<lambda>df. map (restrict_row (columns df)) (rows df)) dfs)\<rparr>"

text \<open>\<open>df.dropna(subset=cs)\<close>: the rows that are null at none of the columns \<open>cs\<close>.\<close>

definition dropna :: "string list \<Rightarrow> frame \<Rightarrow> frame" where
  "dropna cs df = df\<lparr>rows := filter (\<lambda>r. \<forall>c \<in> set cs. r c \<noteq> Null) (rows df)\<rparr>"

section \<open>Library functions\<close>

text \<open>
  The functions of Python and pandas that parse and print text are taken as parameters:
  their code is not part of the repository, and nothing proved below depends on what they
  compute.
  \<^item> \<open>to_numeric v\<close>: the number \<open>pd.to_numeric\<close> reads from a cell, \<open>None\<close> where it
    cannot (with \<open>errors="coerce"\<close> the cell then becomes NaN);
  \<^item> \<open>to_datetime col i\<close>: the instant (nanoseconds after the epoch, UTC) that
    \<open>pd.to_datetime(col, errors="coerce", utc=True)\<close> gives at position \<open>i\<close> of the column,
    \<open>None\<close> where it gives NaT;
  \<^item> \<open>to_datetime_format fmt v\<close>: the same for \<open>pd.to_datetime(_, format=fmt,
    errors="coerce")\<close>, elementwise;
  \<^item> \<open>py_str v\<close>: \<open>str(v)\<close>; \<open>py_upper s\<close>: \<open>s.upper()\<close>; \<open>py_strip s\<close>: \<open>s.strip()\<close>;
  \<^item> \<open>re_sub pat repl s\<close>: \<open>re.sub(pat, repl, s)\<close>;
  \<^item> \<open>nanpercentile xs q\<close>: \<open>np.nanpercentile(xs, q)\<close> on a non-empty list of numbers.
\<close>

record pylib =
  to_numeric :: "cell \<Rightarrow> real option"
  to_datetime :: "cell list \<Rightarrow> nat \<Rightarrow> int option"
  to_datetime_format :: "string \<Rightarrow> cell \<Rightarrow> int option"
  py_str :: "cell \<Rightarrow> string"
  py_upper :: "string \<Rightarrow> string"
  py_strip :: "string \<Rightarrow> string"
  re_sub :: "string \<Rightarrow> string \<Rightarrow> string \<Rightarrow> string"
  nanpercentile :: "real list \<Rightarrow> real \<Rightarrow> real"

text \<open>\<open>pd.to_numeric(_, errors="coerce")\<close> on one cell.\<close>

definition coerce_numeric :: "pylib \<Rightarrow> cell \<Rightarrow> cell" where
  "coerce_numeric L v = (case to_numeric L v of None \<Rightarrow> Null | Some x \<Rightarrow> Num x)"

text \<open>\<open>pd.to_datetime(_, format=fmt, errors="coerce")\<close> on one cell.\<close>

definition coerce_datetime_format :: "pylib \<Rightarrow> string \<Rightarrow> cell \<Rightarrow> cell" where
  "coerce_datetime_format L fmt v =
     (case to_datetime_format L fmt v of None \<Rightarrow> Null | Some t \<Rightarrow> Stamp t)"

text \<open>\<open>.astype(str)\<close> on one cell: every cell becomes a string, NaN the string "nan".\<close>

definition astype_str :: "pylib \<Rightarrow> cell \<Rightarrow> cell" where
  "astype_str L v = Str (py_str L v)"

text \<open>\<open>df.columns = df.columns.str.strip()\<close>: a row is read under the stripped names.\<close>

definition strip_columns :: "pylib \<Rightarrow> frame \<Rightarrow> frame" where
  "strip_columns L df =
     \<lparr>columns = map (py_strip L) (columns df),
      rows = map (\<lambda>r c. case find (\<lambda>k. py_strip L k = c) (columns df) of
                            None \<Rightarrow> Null | Some k \<Rightarrow> r k) (rows df)\<rparr>"

section \<open>Calendar fields of a timestamp\<close>

text \<open>The \<open>.dt\<close> accessors, from nanoseconds after the epoch.\<close>

definition dt_date :: "int \<Rightarrow> int" where
  "dt_date t = t div 86400000000000"

definition dt_hour :: "int \<Rightarrow> int" where
  "dt_hour t = (t div 3600000000000) mod 24"

text \<open>Year and month of the proleptic Gregorian calendar from the day number.\<close>

definition civil_from_days :: "int \<Rightarrow> int \<times> int" where
  "civil_from_days z0 =
     (let z = z0 + 719468;
          era = z div 146097;
          doe = z mod 146097;
          yoe = (doe - doe div 1460 + doe div 36524 - doe div 146096) div 365;
          doy = doe - (365 * yoe + yoe div 4 - yoe div 100);
          mp = (5 * doy + 2) div 153;
          m = (if mp < 10 then mp + 3 else mp - 9);
          y = yoe + era * 400
      in (if m \<le> 2 then y + 1 else y, m))"

definition dt_year :: "int \<Rightarrow> int" where
  "dt_year t = fst (civil_from_days (dt_date t))"

definition dt_month :: "int \<Rightarrow> int" where
  "dt_month t = snd (civil_from_days (dt_date t))"

definition dt_month_name :: "int \<Rightarrow> string" where
  "dt_month_name t =
     (let m = dt_month t in
      if m = 1 then ''January'' else if m = 2 then ''February''
      else if m = 3 then ''March'' else if m = 4 then ''April''
      else if m = 5 then ''May'' else if m = 6 then ''June''
      else if m = 7 then ''July'' else if m = 8 then ''August''
      else if m = 9 then ''September'' else if m = 10 then ''October''
      else if m = 11 then ''November'' else ''December'')"

definition digit_char :: "int \<Rightarrow> char" where
  "digit_char k = char_of (48 + k mod 10)"

text \<open>\<open>.dt.strftime("%Y-%m")\<close>; a pandas timestamp has a four-digit year.\<close>

definition strftime_Y_m :: "int \<Rightarrow> string" where
  "strftime_Y_m t =
     (let y = dt_year t; m = dt_month t in
      [digit_char (y div 1000), digit_char (y div 100), digit_char (y div 10), digit_char y,
       CHR ''-'', digit_char (m div 10), digit_char m])"

text \<open>An accessor on a cell of a datetime column: NaT gives a null.\<close>

fun dt_field :: "(int \<Rightarrow> cell) \<Rightarrow> cell \<Rightarrow> cell" where
  "dt_field f (Stamp t) = f t"
| "dt_field f v = Null"

section \<open>Loading the accuracy tables (pn_accuracy_dashboard.py, load_accuracy_data)\<close>

definition num_cols :: "string list" where
  "num_cols =
     [''PNLevel'', ''MELLevel'', ''MILLevel'', ''BidVolume'', ''OfferVolume'', ''Metered'',
      ''ExpectOT'', ''CapacityCalibrated'', ''NetError'', ''ABSError'',
      ''max_M_ABS_NetError%'', ''installedCapacity_mwh'', ''A_NetError%'',
      ''A_ABS_NetError%'', ''Rank_A_ABS_NetError%'', ''PctRank_A_ABS_NetError%'']"

definition num_cols_m :: "string list" where
  "num_cols_m =
     [''PNLevel'', ''MELLevel'', ''MILLevel'', ''BidVolume'', ''OfferVolume'', ''Metered'',
      ''ExpectOT'', ''CapacityCalibrated'', ''NetError'', ''ABSError'',
      ''installedCapacity_mwh'', ''M_NetError%'', ''M_ABS_NetError%'',
      ''Rank_M_ABS_NetError%'', ''PctRank_M_ABS_NetError%'']"

text \<open>\<open>if c in df.columns: df[c] = pd.to_numeric(df[c], errors="coerce")\<close>\<close>

definition coerce_column :: "pylib \<Rightarrow> string \<Rightarrow> frame \<Rightarrow> frame" where
  "coerce_column L c df =
     (if c \<in> set (columns df) then assign c (\<lambda>r. coerce_numeric L (r c)) df else df)"

text \<open>The body of the loop over the annual files, on the frame \<open>read_csv\<close> returned.\<close>

definition load_annual_file :: "pylib \<Rightarrow> frame \<Rightarrow> py_error + frame" where
  "load_annual_file L df0 =
     (let df = fold (coerce_column L) num_cols (strip_columns L df0) in
      case assign_from ''BMU'' ''nationalGridBmUnit'' (astype_str L) df of
        Inl e \<Rightarrow> Inl e
      | Inr df \<Rightarrow>
          (case assign_from ''Fuel'' ''FUEL_I'' (astype_str L) df of
             Inl e \<Rightarrow> Inl e
           | Inr df \<Rightarrow>
               Inr (assign ''Grain'' (\<lambda>r. Str ''annual'')
                     (assign ''Year'' (\<lambda>r. Num 2025) df))))"

text \<open>
  The regular expression \<^verbatim>\<open>-(\d)$\<close> and the replacement \<^verbatim>\<open>-0\1\<close> that pad a one-digit
  month; the backslash is the character 0x5C.
\<close>

definition month_pattern :: string where
  "month_pattern = ''-('' @ [CHR 0x5C] @ ''d)$''"

definition month_repl :: string where
  "month_repl = ''-0'' @ [CHR 0x5C] @ ''1''"

text \<open>The body of the loop over the monthly files.\<close>

definition load_monthly_file :: "pylib \<Rightarrow> frame \<Rightarrow> py_error + frame" where
  "load_monthly_file L df0 =
     (case assign_from ''year_month'' ''year_month'' (astype_str L) (strip_columns L df0) of
        Inl e \<Rightarrow> Inl e
      | Inr df \<Rightarrow>
          (let df = assign ''year_month_fixed''
                      (\<lambda>r. case r ''year_month'' of
                              Str s \<Rightarrow> Str (re_sub L month_pattern month_repl s)
                            | v \<Rightarrow> Null) df;
               df = assign ''YearMonth''
                      (\<lambda>r. coerce_datetime_format L ''%Y-%m'' (r ''year_month_fixed'')) df;
               df = assign ''Year''
                      (\<lambda>r. dt_field (\<lambda>t. Num (real_of_int (dt_year t))) (r ''YearMonth'')) df;
               df = assign ''Month''
                      (\<lambda>r. dt_field (\<lambda>t. Num (real_of_int (dt_month t))) (r ''YearMonth'')) df;
               df = assign ''MonthName''
                      (\<lambda>r. dt_field (\<lambda>t. Str (dt_month_name t)) (r ''YearMonth'')) df;
               df = fold (coerce_column L) num_cols_m df
           in case assign_from ''BMU'' ''nationalGridBmUnit'' (astype_str L) df of
                Inl e \<Rightarrow> Inl e
              | Inr df \<Rightarrow>
                  (case assign_from ''Fuel'' ''FUEL_I'' (astype_str L) df of
                     Inl e \<Rightarrow> Inl e
                   | Inr df \<Rightarrow> Inr (assign ''Grain'' (\<lambda>r. Str ''monthly'') df))))"

text \<open>
  A loop \<open>for f in files: df = pd.read_csv(f); ...; dfs.append(df)\<close> with no handler: a
  source is what \<open>read_csv\<close> gives for it, an exception (\<open>Inl\<close>) or a frame, and the first
  exception ends the load.
\<close>

fun load_files :: "(frame \<Rightarrow> py_error + frame) \<Rightarrow> (py_error + frame) list \<Rightarrow> py_error + frame list" where
  "load_files body [] = Inr []"
| "load_files body (Inl e # fs) = Inl e"
| "load_files body (Inr df0 # fs) =
     (case body df0 of
        Inl e \<Rightarrow> Inl e
      | Inr df \<Rightarrow> (case load_files body fs of Inl e \<Rightarrow> Inl e | Inr dfs \<Rightarrow> Inr (df # dfs)))"

definition load_accuracy_data ::
  "pylib \<Rightarrow> (py_error + frame) list \<Rightarrow> (py_error + frame) list \<Rightarrow> py_error + frame \<times> frame" where
  "load_accuracy_data L annual_files monthly_files =
     (case load_files (load_annual_file L) annual_files of
        Inl e \<Rightarrow> Inl e
      | Inr annual_dfs \<Rightarrow>
          (case load_files (load_monthly_file L) monthly_files of
             Inl e \<Rightarrow> Inl e
           | Inr monthly_dfs \<Rightarrow>
               Inr (if annual_dfs = [] then DataFrame else pd_concat annual_dfs,
                    if monthly_dfs = [] then DataFrame else pd_concat monthly_dfs)))"

section \<open>Enrichment (pn_accuracy_dashboard.py, lines 264 to 288)\<close>

text \<open>
  The keys of \<open>groupby("BMU")\<close>: the distinct values of the column, sorted; null keys
  form no group. The loader has made \<open>BMU\<close> a column of strings.
\<close>

fun strings_of :: "cell list \<Rightarrow> string list" where
  "strings_of [] = []"
| "strings_of (Str s # vs) = s # strings_of vs"
| "strings_of (v # vs) = strings_of vs"

definition group_keys :: "cell list \<Rightarrow> string list" where
  "group_keys col = sort (remdups (strings_of col))"

text \<open>The numbers of a column without nulls; numpy rejects anything else.\<close>

definition number_of :: "cell \<Rightarrow> py_error + real" where
  "number_of v = (case v of Num x \<Rightarrow> Inr x | _ \<Rightarrow> Inl TypeError)"

text \<open>
  \<open>lambda s: np.nanpercentile(s.dropna(), 90) if s.dropna().size > 0 else np.nan\<close>
\<close>

definition p90_of_group :: "pylib \<Rightarrow> cell list \<Rightarrow> py_error + cell" where
  "p90_of_group L s =
     (let d = filter (\<lambda>v. v \<noteq> Null) s in
      if d \<noteq> [] then
        (case traverse number_of d of
           Inl e \<Rightarrow> Inl e
         | Inr xs \<Rightarrow> Inr (Num (nanpercentile L xs 90)))
      else Inr Null)"

definition p90_row :: "string \<Rightarrow> cell \<Rightarrow> row" where
  "p90_row k v = (\<lambda>c. Null)(''BMU'' := Str k, ''P90_monthly_error'' := v)"

text \<open>The values of the group of key \<open>k\<close>, in row order.\<close>

definition group_values :: "frame \<Rightarrow> string \<Rightarrow> cell list" where
  "group_values df k =
     map (\<lambda>r. r ''M_ABS_NetError%'') (filter (\<lambda>r. r ''BMU'' = Str k) (rows df))"

definition df_monthly_p90 :: "pylib \<Rightarrow> frame \<Rightarrow> py_error + frame" where
  "df_monthly_p90 L df_monthly =
     (if \<not> frame_empty df_monthly then
        (case getitem df_monthly ''BMU'' of
           Inl e \<Rightarrow> Inl e
         | Inr keycol \<Rightarrow>
             (if ''M_ABS_NetError%'' \<notin> set (columns df_monthly)
              then Inl (KeyError ''M_ABS_NetError%'')
              else
                (case traverse
                        (\<lambda>k. case p90_of_group L (group_values df_monthly k) of
                                Inl e \<Rightarrow> Inl e
                              | Inr v \<Rightarrow> Inr (p90_row k v))
                        (group_keys keycol) of
                   Inl e \<Rightarrow> Inl e
                 | Inr rs \<Rightarrow> Inr \<lparr>columns = [''BMU'', ''P90_monthly_error''], rows = rs\<rparr>)))
      else Inr \<lparr>columns = [''BMU'', ''P90_monthly_error''], rows = []\<rparr>)"

text \<open>
  \<open>df_annual.merge(df_monthly_p90, on="BMU", how="left")\<close>: every left row is kept, once
  for each right row with its key and once, with a null, when there is none. A left
  column that is also called \<open>P90_monthly_error\<close> is renamed with the suffix \<open>_x\<close> and the
  right one with \<open>_y\<close>; pandas refuses the merge when that produces a duplicate name.
\<close>

definition merge_p90 :: "frame \<Rightarrow> frame \<Rightarrow> py_error + frame" where
  "merge_p90 left right =
     (if ''BMU'' \<notin> set (columns left) then Inl (KeyError ''BMU'')
      else if ''P90_monthly_error'' \<in> set (columns left) then
        (if ''P90_monthly_error_x'' \<in> set (columns left)
            \<or> ''P90_monthly_error_y'' \<in> set (columns left)
         then Inl MergeError
         else Inr
           \<lparr>columns = map (\<lambda>c. if c = ''P90_monthly_error'' then ''P90_monthly_error_x'' else c)
                        (columns left) @ [''P90_monthly_error_y''],
            rows = concat (map (\<lambda>r.
                     let r' = r(''P90_monthly_error_x'' := r ''P90_monthly_error'',
                                ''P90_monthly_error'' := Null) in
                     case filter (\<lambda>q. q ''BMU'' = r ''BMU'') (rows right) of
                       [] \<Rightarrow> [r'(''P90_monthly_error_y'' := Null)]
                     | qs \<Rightarrow> map (\<lambda>q. r'(''P90_monthly_error_y'' := q ''P90_monthly_error''))
                              qs) (rows left))\<rparr>)
      else Inr
        \<lparr>columns = columns left @ [''P90_monthly_error''],
         rows = concat (map (\<lambda>r.
                  case filter (\<lambda>q. q ''BMU'' = r ''BMU'') (rows right) of
                    [] \<Rightarrow> [r(''P90_monthly_error'' := Null)]
                  | qs \<Rightarrow> map (\<lambda>q. r(''P90_monthly_error'' := q ''P90_monthly_error'')) qs)
                (rows left))\<rparr>)"

text \<open>
  A comparison of a cell with a number (\<open>col >= 25\<close>, \<open>col > threshold\<close>): a null compares
  False, a boolean counts as 0 or 1, and anything else raises TypeError.
\<close>

definition cmp_scalar :: "(real \<Rightarrow> bool) \<Rightarrow> cell \<Rightarrow> py_error + bool" where
  "cmp_scalar p v =
     (case v of
        Null \<Rightarrow> Inr False
      | Num x \<Rightarrow> Inr (p x)
      | Bool b \<Rightarrow> Inr (p (if b then 1 else 0))
      | _ \<Rightarrow> Inl TypeError)"

text \<open>The mask of a fallible elementwise test on the column \<open>c\<close>.\<close>

definition col_mask :: "string \<Rightarrow> (cell \<Rightarrow> py_error + bool) \<Rightarrow> frame \<Rightarrow> py_error + bool list" where
  "col_mask c p df =
     (case getitem df c of Inl e \<Rightarrow> Inl e | Inr col \<Rightarrow> traverse p col)"

text \<open>\<open>df[c] = values\<close>\<close>

definition set_column :: "string \<Rightarrow> cell list \<Rightarrow> frame \<Rightarrow> frame" where
  "set_column c vs df =
     \<lparr>columns = (if c \<in> set (columns df) then columns df else columns df @ [c]),
      rows = map (\<lambda>(r, v). r(c := v)) (zip (rows df) vs)\<rparr>"

text \<open>
  Lines 264 to 288, from the two loaded tables: the percentile table, the merge, and the
  columns \<open>ErrorFlagValue\<close> and \<open>NeedsAttention\<close>. The script has stopped before when
  \<open>df_annual.empty\<close>.
\<close>

definition enrich_annual :: "pylib \<Rightarrow> frame \<Rightarrow> frame \<Rightarrow> py_error + frame" where
  "enrich_annual L df_annual df_monthly =
     (if frame_empty df_annual then Inl Stop
      else
        (case df_monthly_p90 L df_monthly of
           Inl e \<Rightarrow> Inl e
         | Inr p90 \<Rightarrow>
             (case merge_p90 df_annual p90 of
                Inl e \<Rightarrow> Inl e
              | Inr df \<Rightarrow>
                  (case assign_from ''ErrorFlagValue'' ''A_ABS_NetError%'' (\<lambda>v. v) df of
                     Inl e \<Rightarrow> Inl e
                   | Inr df \<Rightarrow>
                       (case col_mask ''A_ABS_NetError%'' (cmp_scalar (\<lambda>x. x \<ge> 25)) df of
                          Inl e \<Rightarrow> Inl e
                        | Inr m1 \<Rightarrow>
                            (case col_mask ''P90_monthly_error'' (cmp_scalar (\<lambda>x. x \<ge> 25)) df of
                               Inl e \<Rightarrow> Inl e
                             | Inr m2 \<Rightarrow>
                                 Inr (set_column ''NeedsAttention''
                                        (map (\<lambda>(a, b). Bool (a \<or> b)) (zip m1 m2)) df)))))))"

section \<open>Objects and references\<close>

text \<open>
  The frames a script holds are objects in a store, named by their position; a variable
  holds a reference. Creating a frame adds an object; rebinding a variable changes no
  object.
\<close>

type_synonym heap = "frame list"

definition new_frame :: "heap \<Rightarrow> frame \<Rightarrow> heap \<times> nat" where
  "new_frame h df = (h @ [df], length h)"

text \<open>\<open>df.copy()\<close>\<close>

definition df_copy :: "heap \<Rightarrow> nat \<Rightarrow> heap \<times> nat" where
  "df_copy h df = new_frame h (h ! df)"

text \<open>\<open>df[msk(df)]\<close>: a new frame; the frame indexed is only read.\<close>

definition index_by :: "heap \<Rightarrow> nat \<Rightarrow> (frame \<Rightarrow> py_error + bool list) \<Rightarrow> py_error + heap \<times> nat" where
  "index_by h df msk =
     (case msk (h ! df) of Inl e \<Rightarrow> Inl e | Inr m \<Rightarrow> Inr (new_frame h (loc (h ! df) m)))"

text \<open>\<open>col.isin(values)\<close>, \<open>col == True\<close>, \<open>col == False\<close> and \<open>col == "text"\<close> on one cell.\<close>

definition isin :: "cell list \<Rightarrow> cell \<Rightarrow> py_error + bool" where
  "isin vs v = Inr (v \<in> set vs)"

definition eq_bool :: "bool \<Rightarrow> cell \<Rightarrow> py_error + bool" where
  "eq_bool b v =
     (case v of
        Bool c \<Rightarrow> Inr (c = b)
      | Num x \<Rightarrow> Inr (x = (if b then 1 else 0))
      | _ \<Rightarrow> Inr False)"

definition eq_str :: "string \<Rightarrow> cell \<Rightarrow> py_error + bool" where
  "eq_str s v = Inr (v = Str s)"

section \<open>The sidebar filters (pn_accuracy_dashboard.py, lines 305 to 313)\<close>

definition filtered_annual ::
  "heap \<Rightarrow> nat \<Rightarrow> string list \<Rightarrow> string list \<Rightarrow> bool \<Rightarrow> py_error + heap \<times> nat" where
  "filtered_annual h df_annual fuel_filter bmu_filter attention_only =
     (case df_copy h df_annual of (h, fa) \<Rightarrow>
      (case index_by h fa (col_mask ''Fuel'' (isin (map Str fuel_filter))) of
        Inl e \<Rightarrow> Inl e
      | Inr (h, fa) \<Rightarrow>
          (case (if bmu_filter \<noteq> []
                 then index_by h fa (col_mask ''BMU'' (isin (map Str bmu_filter)))
                 else Inr (h, fa)) of
             Inl e \<Rightarrow> Inl e
           | Inr (h, fa) \<Rightarrow>
               (if attention_only
                then index_by h fa (col_mask ''NeedsAttention'' (eq_bool True))
                else Inr (h, fa)))))"

section \<open>Loading the trades (reference.py, load_and_transform_data)\<close>

definition required_cols :: "string list" where
  "required_cols =
     [''HourStartLocal'', ''Interconnector'', ''Trade_Abs_MW'', ''Trade_Direction'',
      ''IsPartialHour'', ''Trade_Bucket_All'']"

text \<open>
  The loop over the sources. A source is what \<open>pd.read_csv\<close> gives for it: an exception
  (\<open>Inl\<close>), which the handler reports with \<open>st.error\<close>, or a frame, which is appended when
  it has every required column and passed over otherwise. The result is \<open>all_dfs\<close> and the
  reports, in order.
\<close>

fun read_sources :: "(py_error + frame) list \<Rightarrow> frame list \<times> py_error list" where
  "read_sources [] = ([], [])"
| "read_sources (Inl e # ss) = (case read_sources ss of (dfs, errs) \<Rightarrow> (dfs, e # errs))"
| "read_sources (Inr df # ss) =
     (case read_sources ss of (dfs, errs) \<Rightarrow>
        if \<not> (\<forall>col \<in> set required_cols. col \<in> set (columns df)) then (dfs, errs)
        else (df # dfs, errs))"

text \<open>\<open>"IFA" in name_str\<close>\<close>

fun contains :: "string \<Rightarrow> string \<Rightarrow> bool" where
  "contains pat [] = (pat = [])"
| "contains pat (c # cs) = (take (length pat) (c # cs) = pat \<or> contains pat cs)"

definition map_group :: "pylib \<Rightarrow> cell \<Rightarrow> cell" where
  "map_group L name =
     (let name_str = py_upper L (py_str L name) in
      if contains ''IFA'' name_str then Str ''IFA'' else name)"

text \<open>\<open>pd.to_datetime(col, errors="coerce", utc=True)\<close> written back to the column.\<close>

definition coerce_datetime_column :: "pylib \<Rightarrow> string \<Rightarrow> frame \<Rightarrow> frame" where
  "coerce_datetime_column L c df =
     (let col = map (\<lambda>r. r c) (rows df) in
      set_column c
        (map (\<lambda>i. case to_datetime L col i of None \<Rightarrow> Null | Some t \<Rightarrow> Stamp t)
             [0 ..< length col]) df)"

text \<open>
  What follows the loop. Every appended frame has the columns that are read, and none of
  the steps raises, so the function returns a frame for every list of sources; the
  second component is what \<open>st.error\<close> has shown.
\<close>

definition transform :: "pylib \<Rightarrow> frame list \<Rightarrow> frame" where
  "transform L all_dfs =
     (let fact_trades = pd_concat all_dfs;
          fact_trades = coerce_datetime_column L ''HourStartLocal'' fact_trades;
          fact_trades = dropna [''HourStartLocal'', ''Trade_Abs_MW'', ''Interconnector''] fact_trades;
          fact_trades = assign ''Date''
             (\<lambda>r. dt_field (\<lambda>t. Day (dt_date t)) (r ''HourStartLocal'')) fact_trades;
          fact_trades = assign ''Hour''
             (\<lambda>r. dt_field (\<lambda>t. Num (real_of_int (dt_hour t))) (r ''HourStartLocal'')) fact_trades;
          fact_trades = assign ''Year''
             (\<lambda>r. dt_field (\<lambda>t. Num (real_of_int (dt_year t))) (r ''HourStartLocal'')) fact_trades;
          fact_trades = assign ''Month''
             (\<lambda>r. dt_field (\<lambda>t. Num (real_of_int (dt_month t))) (r ''HourStartLocal'')) fact_trades;
          fact_trades = assign ''MonthName''
             (\<lambda>r. dt_field (\<lambda>t. Str (dt_month_name t)) (r ''HourStartLocal'')) fact_trades;
          fact_trades = assign ''YearMonth''
             (\<lambda>r. dt_field (\<lambda>t. Str (strftime_Y_m t)) (r ''HourStartLocal'')) fact_trades
      in assign ''Interconnector Group'' (\<lambda>r. map_group L (r ''Interconnector'')) fact_trades)"

definition load_and_transform_data ::
  "pylib \<Rightarrow> (py_error + frame) list \<Rightarrow> frame \<times> py_error list" where
  "load_and_transform_data L files_or_paths =
     (case read_sources files_or_paths of (all_dfs, shown) \<Rightarrow>
        if all_dfs = [] then (DataFrame, shown) else (transform L all_dfs, shown))"

section \<open>Filtering the trades (reference.py, apply_filters)\<close>

text \<open>
  A comparison of a cell of the \<open>Date\<close> column, which holds \<open>datetime.date\<close> objects, with
  a date: a null compares False, and a cell that is no date raises TypeError.
\<close>

definition cmp_date :: "(int \<Rightarrow> bool) \<Rightarrow> cell \<Rightarrow> py_error + bool" where
  "cmp_date p v =
     (case v of Null \<Rightarrow> Inr False | Day d \<Rightarrow> Inr (p d) | _ \<Rightarrow> Inl TypeError)"

text \<open>\<open>(temp_df["Date"] >= dr[0]) & (temp_df["Date"] <= dr[1])\<close>\<close>

definition date_mask :: "int list \<Rightarrow> frame \<Rightarrow> py_error + bool list" where
  "date_mask dr df =
     (case col_mask ''Date'' (cmp_date (\<lambda>d. d \<ge> dr ! 0)) df of
        Inl e \<Rightarrow> Inl e
      | Inr m1 \<Rightarrow>
          (case col_mask ''Date'' (cmp_date (\<lambda>d. d \<le> dr ! 1)) df of
             Inl e \<Rightarrow> Inl e
           | Inr m2 \<Rightarrow> Inr (map (\<lambda>(a, b). a \<and> b) (zip m1 m2))))"

text \<open>
  \<open>dr\<close> is the list of dates passed as date range; a value that is no list or tuple
  behaves as a list of another length than 2: no date filter.
\<close>

definition apply_filters ::
  "heap \<Rightarrow> nat \<Rightarrow> int list \<Rightarrow> cell list \<Rightarrow> cell list \<Rightarrow> string \<Rightarrow> bool \<Rightarrow> py_error + heap \<times> nat" where
  "apply_filters h df dr groups_sel ics_sel dir_mode inc_partial =
     (case df_copy h df of (h, temp_df) \<Rightarrow>
      (case (if length dr = 2 then index_by h temp_df (date_mask dr) else Inr (h, temp_df)) of
        Inl e \<Rightarrow> Inl e
      | Inr (h, temp_df) \<Rightarrow>
      (case index_by h temp_df (col_mask ''Interconnector Group'' (isin groups_sel)) of
        Inl e \<Rightarrow> Inl e
      | Inr (h, temp_df) \<Rightarrow>
      (case index_by h temp_df (col_mask ''Interconnector'' (isin ics_sel)) of
        Inl e \<Rightarrow> Inl e
      | Inr (h, temp_df) \<Rightarrow>
      (case (if \<not> inc_partial
             then index_by h temp_df (col_mask ''IsPartialHour'' (eq_bool False))
             else Inr (h, temp_df)) of
        Inl e \<Rightarrow> Inl e
      | Inr (h, temp_df) \<Rightarrow>
          (if dir_mode = ''Import''
           then index_by h temp_df (col_mask ''Trade_Direction'' (eq_str ''Import''))
           else if dir_mode = ''Export''
           then index_by h temp_df (col_mask ''Trade_Direction'' (eq_str ''Export''))
           else Inr (h, temp_df)))))))"

section \<open>Measures over the trades (reference.py, get_measures and daily_data)\<close>

text \<open>\<open>col.nunique()\<close>: the number of distinct values that are not null.\<close>

definition nunique :: "cell list \<Rightarrow> nat" where
  "nunique col = length (remdups (filter (\<lambda>v. v \<noteq> Null) col))"

text \<open>The number a cell that passed a comparison contributes to \<open>sum()\<close>.\<close>

definition cell_value :: "cell \<Rightarrow> real" where
  "cell_value v = (case v of Num x \<Rightarrow> x | Bool b \<Rightarrow> (if b then 1 else 0) | _ \<Rightarrow> 0)"

text \<open>
  The tuple returned is \<open>(ic_hours_above, network_hours_above, days_above,
  total_energy_mwh, avg_power_mw)\<close>.
\<close>

definition get_measures :: "frame \<Rightarrow> real \<Rightarrow> py_error + nat \<times> nat \<times> nat \<times> real \<times> real" where
  "get_measures df threshold =
     (case col_mask ''Trade_Abs_MW'' (cmp_scalar (\<lambda>x. x > threshold)) df of
        Inl e \<Rightarrow> Inl e
      | Inr m \<Rightarrow>
          (let subset = loc df m;
               ic_hours_above = length (rows subset) in
           case getitem subset ''HourStartLocal'' of
             Inl e \<Rightarrow> Inl e
           | Inr hours \<Rightarrow>
               (case getitem subset ''Date'' of
                  Inl e \<Rightarrow> Inl e
                | Inr dates \<Rightarrow>
                    (let total_energy_mwh =
                           sum_list (map (\<lambda>r. cell_value (r ''Trade_Abs_MW'')) (rows subset));
                         avg_power_mw =
                           (if ic_hours_above > 0
                            then total_energy_mwh / real ic_hours_above else 0)
                     in Inr (ic_hours_above, nunique hours, nunique dates,
                             total_energy_mwh, avg_power_mw)))))"

text \<open>The keys of \<open>groupby("Date")\<close>: the distinct dates of the column, sorted.\<close>

fun days_of :: "cell list \<Rightarrow> int list" where
  "days_of [] = []"
| "days_of (Day d # vs) = d # days_of vs"
| "days_of (v # vs) = days_of vs"

definition daily_row :: "frame \<Rightarrow> int \<Rightarrow> row" where
  "daily_row df d =
     (\<lambda>c. Null)
       (''Date'' := Day d,
        ''Hours Over Threshold'' :=
           Num (real (nunique (map (\<lambda>r. r ''Hour'')
                                 (filter (\<lambda>r. r ''Date'' = Day d) (rows df))))))"

text \<open>
  \<open>filtered_fact[filtered_fact["Trade_Abs_MW"] > mw_threshold].groupby("Date")["Hour"]
  .nunique().reset_index(name="Hours Over Threshold")\<close>
\<close>

definition daily_data :: "frame \<Rightarrow> real \<Rightarrow> py_error + frame" where
  "daily_data filtered_fact mw_threshold =
     (case col_mask ''Trade_Abs_MW'' (cmp_scalar (\<lambda>x. x > mw_threshold)) filtered_fact of
        Inl e \<Rightarrow> Inl e
      | Inr m \<Rightarrow>
          (let subset = loc filtered_fact m in
           case getitem subset ''Date'' of
             Inl e \<Rightarrow> Inl e
           | Inr dates \<Rightarrow>
               (if ''Hour'' \<notin> set (columns subset) then Inl (KeyError ''Hour'')
                else Inr \<lparr>columns = [''Date'', ''Hours Over Threshold''],
                          rows = map (daily_row subset) (sort (remdups (days_of dates)))\<rparr>)))"

section \<open>Error bands (pn_accuracy_dashboard.py, classify_band)\<close>

text \<open>The labels are written with an en dash (U+2013), three bytes in UTF-8.\<close>

definition en_dash :: string where
  "en_dash = [CHR 0xE2, CHR 0x80, CHR 0x93]"

definition band_unknown :: string where "band_unknown = ''Unknown''"
definition band_0_1 :: string where "band_0_1 = ''0'' @ en_dash @ ''1%''"
definition band_1_2 :: string where "band_1_2 = ''1'' @ en_dash @ ''2%''"
definition band_2_4 :: string where "band_2_4 = ''2'' @ en_dash @ ''4%''"
definition band_4_10 :: string where "band_4_10 = ''4'' @ en_dash @ ''10%''"
definition band_over_10 :: string where "band_over_10 = ''>10%''"

text \<open>
  \<open>classify_band\<close> is applied to the elements of the column \<open>A_ABS_NetError%\<close>, which the
  loader has passed through \<open>pd.to_numeric\<close>: an element is a number or NaN. \<open>None\<close> is
  NaN (\<open>pd.isna(v)\<close>).
\<close>

fun classify_band :: "real option \<Rightarrow> string" where
  "classify_band None = band_unknown"
| "classify_band (Some v) =
     (if v < 1 then band_0_1
      else if v < 2 then band_1_2
      else if v < 4 then band_2_4
      else if v < 10 then band_4_10
      else band_over_10)"

section \<open>Notions used to state the lemmas\<close>

text \<open>
  \<open>narrowed s P s'\<close>: the store and reference \<open>s'\<close> come from \<open>s\<close> by adding objects only,
  and the frame \<open>s'\<close> refers to is the frame \<open>s\<close> refers to with the rows satisfying \<open>P\<close>.
\<close>

definition narrowed :: "heap \<times> nat \<Rightarrow> (row \<Rightarrow> bool) \<Rightarrow> heap \<times> nat \<Rightarrow> bool" where
  "narrowed s P s' =
     (fst s = take (length (fst s)) (fst s') \<and> length (fst s) \<le> length (fst s')
      \<and> snd s < length (fst s) \<and> snd s' < length (fst s') \<and> snd s \<le> snd s'
      \<and> fst s' ! snd s' = (fst s ! snd s)\<lparr>rows := filter P (rows (fst s ! snd s))\<rparr>)"

text \<open>
  The row test \<open>apply_filters\<close> amounts to, and the frames on which it raises no exception;
  both are proved of \<open>apply_filters\<close> below (\<open>apply_filters_narrowed\<close>,
  \<open>apply_filters_defined\<close>).
\<close>

definition passes :: "int list \<Rightarrow> cell list \<Rightarrow> cell list \<Rightarrow> string \<Rightarrow> bool \<Rightarrow> row \<Rightarrow> bool" where
  "passes dr groups_sel ics_sel dir_mode inc_partial x =
     ((length dr = 2 \<longrightarrow> (\<exists>d. x ''Date'' = Day d \<and> dr ! 0 \<le> d \<and> d \<le> dr ! 1))
      \<and> x ''Interconnector Group'' \<in> set groups_sel
      \<and> x ''Interconnector'' \<in> set ics_sel
      \<and> (\<not> inc_partial \<longrightarrow> x ''IsPartialHour'' = Bool False \<or> x ''IsPartialHour'' = Num 0)
      \<and> (dir_mode = ''Import'' \<longrightarrow> x ''Trade_Direction'' = Str ''Import'')
      \<and> (dir_mode = ''Export'' \<longrightarrow> x ''Trade_Direction'' = Str ''Export''))"

definition filterable :: "int list \<Rightarrow> string \<Rightarrow> bool \<Rightarrow> frame \<Rightarrow> bool" where
  "filterable dr dir_mode inc_partial df =
     ((length dr = 2 \<longrightarrow> ''Date'' \<in> set (columns df)
         \<and> (\<forall>x \<in> set (rows df). x ''Date'' = Null \<or> (\<exists>d. x ''Date'' = Day d)))
      \<and> ''Interconnector Group'' \<in> set (columns df)
      \<and> ''Interconnector'' \<in> set (columns df)
      \<and> (\<not> inc_partial \<longrightarrow> ''IsPartialHour'' \<in> set (columns df))
      \<and> (dir_mode = ''Import'' \<or> dir_mode = ''Export'' \<longrightarrow> ''Trade_Direction'' \<in> set (columns df)))"

text \<open>
  What the derived columns of \<open>transform\<close> make of a row, and the positions of the
  concatenated table whose rows \<open>transform\<close> keeps; both are proved of \<open>transform\<close> below
  (\<open>transform_rows\<close>, \<open>transform_length\<close>).
\<close>

definition derive_trade :: "pylib \<Rightarrow> row \<Rightarrow> row" where
  "derive_trade L r0 =
     (let r1 = r0(''Date'' := dt_field (\<lambda>t. Day (dt_date t)) (r0 ''HourStartLocal''));
          r2 = r1(''Hour'' := dt_field (\<lambda>t. Num (real_of_int (dt_hour t))) (r1 ''HourStartLocal''));
          r3 = r2(''Year'' := dt_field (\<lambda>t. Num (real_of_int (dt_year t))) (r2 ''HourStartLocal''));
          r4 = r3(''Month'' := dt_field (\<lambda>t. Num (real_of_int (dt_month t))) (r3 ''HourStartLocal''));
          r5 = r4(''MonthName'' := dt_field (\<lambda>t. Str (dt_month_name t)) (r4 ''HourStartLocal''));
          r6 = r5(''YearMonth'' := dt_field (\<lambda>t. Str (strftime_Y_m t)) (r5 ''HourStartLocal''))
      in r6(''Interconnector Group'' := map_group L (r6 ''Interconnector'')))"

definition kept :: "pylib \<Rightarrow> frame \<Rightarrow> nat \<Rightarrow> bool" where
  "kept L df i =
     (to_datetime L (map (\<lambda>r. r ''HourStartLocal'') (rows df)) i \<noteq> None
      \<and> (rows df ! i) ''Trade_Abs_MW'' \<noteq> Null
      \<and> (rows df ! i) ''Interconnector'' \<noteq> Null)"

section \<open>Sample library and tables\<close>

text \<open>
  Stand-ins for the library functions on the texts the samples use: numbers written with
  digits only, instants written \<open>2025-01-DD HH:00:00\<close>, months written \<open>2025-MM\<close>, ASCII
  letters and blanks. They return what Python and pandas return on these texts and on the
  texts \<open>n/a\<close> and \<open>not a date\<close>, which neither reads. \<open>percentile_linear\<close> is the linear
  interpolation between the two nearest ranks, the default of \<open>np.nanpercentile\<close>.
\<close>

definition percentile_linear :: "real list \<Rightarrow> real \<Rightarrow> real" where
  "percentile_linear xs q =
     (let s = sort xs;
          pos = (real (length s) - 1) * q / 100;
          i = nat \<lfloor>pos\<rfloor>
      in if Suc i < length s then s ! i + (pos - real i) * (s ! Suc i - s ! i) else s ! i)"

definition digit_val :: "char \<Rightarrow> nat option" where
  "digit_val ch =
     (if 48 \<le> (of_char ch :: nat) \<and> (of_char ch :: nat) \<le> 57
      then Some (of_char ch - 48) else None)"

fun parse_digits :: "nat \<Rightarrow> string \<Rightarrow> nat option" where
  "parse_digits acc [] = Some acc"
| "parse_digits acc (ch # s) =
     (case digit_val ch of None \<Rightarrow> None | Some d \<Rightarrow> parse_digits (10 * acc + d) s)"

definition parse_nat :: "string \<Rightarrow> nat option" where
  "parse_nat s = (if s = [] then None else parse_digits 0 s)"

definition sample_to_numeric :: "cell \<Rightarrow> real option" where
  "sample_to_numeric v =
     (case v of
        Num x \<Rightarrow> Some x
      | Str s \<Rightarrow> map_option real (parse_nat s)
      | Bool b \<Rightarrow> Some (if b then 1 else 0)
      | _ \<Rightarrow> None)"

definition sample_instant :: "string \<Rightarrow> int option" where
  "sample_instant s =
     (if length s = 19 \<and> take 8 s = ''2025-01-'' \<and> s ! 10 = CHR '' ''
         \<and> drop 13 s = '':00:00''
      then (case (parse_nat (take 2 (drop 8 s)), parse_nat (take 2 (drop 11 s))) of
              (Some d, Some h) \<Rightarrow>
                (if 1 \<le> d \<and> d \<le> 31 \<and> h < 24
                 then Some (1735689600000000000 + int ((d - 1) * 24 + h) * 3600000000000)
                 else None)
            | _ \<Rightarrow> None)
      else None)"

definition sample_to_datetime :: "cell list \<Rightarrow> nat \<Rightarrow> int option" where
  "sample_to_datetime col i = (case col ! i of Str s \<Rightarrow> sample_instant s | _ \<Rightarrow> None)"

definition sample_month :: "string \<Rightarrow> int option" where
  "sample_month s =
     (if length s = 7 \<and> take 5 s = ''2025-''
      then (case parse_nat (drop 5 s) of
              Some m \<Rightarrow>
                (if 1 \<le> m \<and> m \<le> 12
                 then Some (1735689600000000000
                        + int ([0, 31, 59, 90, 120, 151, 181, 212, 243, 273, 304, 334] ! (m - 1))
                          * 86400000000000)
                 else None)
            | None \<Rightarrow> None)
      else None)"

definition sample_to_datetime_format :: "string \<Rightarrow> cell \<Rightarrow> int option" where
  "sample_to_datetime_format fmt v =
     (case v of Str s \<Rightarrow> (if fmt = ''%Y-%m'' then sample_month s else None) | _ \<Rightarrow> None)"

definition sample_str :: "cell \<Rightarrow> string" where
  "sample_str v =
     (case v of
        Str s \<Rightarrow> s
      | Null \<Rightarrow> ''nan''
      | Bool b \<Rightarrow> (if b then ''True'' else ''False'')
      | _ \<Rightarrow> ''?'')"

definition sample_upper :: "string \<Rightarrow> string" where
  "sample_upper s =
     map (\<lambda>ch. if 97 \<le> (of_char ch :: nat) \<and> (of_char ch :: nat) \<le> 122
               then char_of ((of_char ch :: nat) - 32) else ch) s"

definition sample_strip :: "string \<Rightarrow> string" where
  "sample_strip s =
     (let sp = (\<lambda>ch. ch \<in> set [CHR '' '', CHR 0x09, CHR 0x0A, CHR 0x0D])
      in rev (dropWhile sp (rev (dropWhile sp s))))"

definition sample_re_sub :: "string \<Rightarrow> string \<Rightarrow> string \<Rightarrow> string" where
  "sample_re_sub pat repl s =
     (if pat = month_pattern \<and> repl = month_repl
      then (case rev s of
              d # m # rest \<Rightarrow>
                (if m = CHR ''-'' \<and> digit_val d \<noteq> None then rev rest @ ''-0'' @ [d] else s)
            | _ \<Rightarrow> s)
      else s)"

definition sample_lib :: pylib where
  "sample_lib =
     \<lparr>to_numeric = sample_to_numeric,
      to_datetime = sample_to_datetime,
      to_datetime_format = sample_to_datetime_format,
      py_str = sample_str,
      py_upper = sample_upper,
      py_strip = sample_strip,
      re_sub = sample_re_sub,
      nanpercentile = percentile_linear\<rparr>"

text \<open>An annual source with a cell that is no number, and its column names not yet stripped.\<close>

definition sample_annual_source :: frame where
  "sample_annual_source =
     \<lparr>columns = ['' nationalGridBmUnit'', ''FUEL_I'', ''A_ABS_NetError%''],
      rows = [(\<lambda>c. Null)('' nationalGridBmUnit'' := Str ''E1'', ''FUEL_I'' := Str ''Gas'',
                ''A_ABS_NetError%'' := Str ''24''),
              (\<lambda>c. Null)('' nationalGridBmUnit'' := Str ''E2'', ''FUEL_I'' := Str ''Wind'',
                ''A_ABS_NetError%'' := Str ''n/a'')]\<rparr>"

text \<open>A monthly source with a period that is no month.\<close>

definition sample_monthly_source :: frame where
  "sample_monthly_source =
     \<lparr>columns = [''nationalGridBmUnit'', ''FUEL_I'', ''year_month'', ''M_ABS_NetError%''],
      rows = [(\<lambda>c. Null)(''nationalGridBmUnit'' := Str ''E1'', ''FUEL_I'' := Str ''Gas'',
                ''year_month'' := Str ''2025-13'', ''M_ABS_NetError%'' := Num 26)]\<rparr>"

text \<open>The two tables as the loader leaves them, with the columns the enrichment reads.\<close>

definition monthly_row :: "string \<Rightarrow> cell \<Rightarrow> row" where
  "monthly_row b v = (\<lambda>c. Null)(''BMU'' := Str b, ''M_ABS_NetError%'' := v, ''Grain'' := Str ''monthly'')"

definition sample_monthly :: frame where
  "sample_monthly =
     \<lparr>columns = [''BMU'', ''M_ABS_NetError%'', ''Grain''],
      rows = [monthly_row ''E1'' (Num 10), monthly_row ''E2'' Null, monthly_row ''E1'' (Num 20),
              monthly_row ''E1'' (Num 30), monthly_row ''E4'' (Num 26), monthly_row ''E1'' (Num 40),
              monthly_row ''E1'' (Num 50), monthly_row ''E1'' Null, monthly_row ''E2'' Null]\<rparr>"

definition annual_row :: "string \<Rightarrow> string \<Rightarrow> cell \<Rightarrow> row" where
  "annual_row b f v = (\<lambda>c. Null)(''BMU'' := Str b, ''Fuel'' := Str f, ''A_ABS_NetError%'' := v)"

definition sample_annual :: frame where
  "sample_annual =
     \<lparr>columns = [''BMU'', ''Fuel'', ''A_ABS_NetError%''],
      rows = [annual_row ''E4'' ''Gas'' (Num 24), annual_row ''E3'' ''Wind'' (Num 24),
              annual_row ''E2'' ''Wind'' (Num 24), annual_row ''E1'' ''Gas'' (Num 10)]\<rparr>"

text \<open>Sources of trades: one with a timestamp that is no date, one without all required columns.\<close>

definition trade_source_row :: "string \<Rightarrow> string \<Rightarrow> row" where
  "trade_source_row ic stamp =
     (\<lambda>c. Null)(''HourStartLocal'' := Str stamp, ''Interconnector'' := Str ic,
        ''Trade_Abs_MW'' := Num 600, ''Trade_Direction'' := Str ''Import'',
        ''IsPartialHour'' := Bool False, ''Trade_Bucket_All'' := Str ''500+'')"

definition sample_trades_source :: frame where
  "sample_trades_source =
     \<lparr>columns = required_cols,
      rows = [trade_source_row ''IFA1'' ''2025-01-01 05:00:00'',
              trade_source_row ''NEMO'' ''not a date'']\<rparr>"

definition sample_incomplete_source :: frame where
  "sample_incomplete_source =
     \<lparr>columns = [''HourStartLocal'', ''Interconnector'', ''Trade_Abs_MW''],
      rows = [trade_source_row ''IFA2'' ''2025-01-03 00:00:00'']\<rparr>"

text \<open>
  A loaded table of one day on which two interconnectors trade above 500 MW, one in
  thirteen hours and one in twelve of the same hours.
\<close>

definition busy_row :: "string \<Rightarrow> nat \<Rightarrow> row" where
  "busy_row ic h =
     (\<lambda>c. Null)(''HourStartLocal'' := Stamp (1735689600000000000 + int h * 3600000000000),
        ''Interconnector'' := Str ic, ''Trade_Abs_MW'' := Num 600,
        ''Date'' := Day 20089, ''Hour'' := Num (real h))"

definition sample_busy_day :: frame where
  "sample_busy_day =
     \<lparr>columns = [''HourStartLocal'', ''Interconnector'', ''Trade_Abs_MW'', ''Date'', ''Hour''],
      rows = map (busy_row ''IFA1'') [0 ..< 13] @ map (busy_row ''NEMO'') [0 ..< 12]\<rparr>"

text \<open>A table as the enrichment leaves it, and a table of trades as the loader leaves it.\<close>

definition sample_enriched :: frame where
  "sample_enriched =
     \<lparr>columns = [''BMU'', ''Fuel'', ''A_ABS_NetError%'', ''P90_monthly_error'', ''NeedsAttention''],
      rows = [(\<lambda>c. Null)(''BMU'' := Str ''E1'', ''Fuel'' := Str ''Gas'',
                ''A_ABS_NetError%'' := Num 24, ''P90_monthly_error'' := Num 26,
                ''NeedsAttention'' := Bool True),
              (\<lambda>c. Null)(''BMU'' := Str ''E2'', ''Fuel'' := Str ''Wind'',
                ''A_ABS_NetError%'' := Num 24, ''P90_monthly_error'' := Null,
                ''NeedsAttention'' := Bool False)]\<rparr>"

definition sample_trades :: frame where
  "sample_trades =
     \<lparr>columns = [''HourStartLocal'', ''Interconnector'', ''Trade_Abs_MW'', ''Trade_Direction'',
                 ''IsPartialHour'', ''Trade_Bucket_All'', ''Date'', ''Hour'',
                 ''Interconnector Group''],
      rows = [(\<lambda>c. Null)(''HourStartLocal'' := Stamp 1735707600000000000,
                ''Interconnector'' := Str ''IFA1'', ''Trade_Abs_MW'' := Num 600,
                ''Trade_Direction'' := Str ''Import'', ''IsPartialHour'' := Bool False,
                ''Trade_Bucket_All'' := Str ''500+'', ''Date'' := Day 20089, ''Hour'' := Num 5,
                ''Interconnector Group'' := Str ''IFA''),
              (\<lambda>c. Null)(''HourStartLocal'' := Stamp 1735776000000000000,
                ''Interconnector'' := Str ''NEMO'', ''Trade_Abs_MW'' := Num 300,
                ''Trade_Direction'' := Str ''Export'', ''IsPartialHour'' := Bool True,
                ''Trade_Bucket_All'' := Str ''0-500'', ''Date'' := Day 20090, ''Hour'' := Num 0,
                ''Interconnector Group'' := Str ''NEMO'')]\<rparr>"

section \<open>Masks and indexing\<close>

lemma traverse_total: "traverse (\<lambda>v. Inr (p v)) xs = Inr (map p xs)"
  by (induction xs) auto

lemma traverse_mask:
  "traverse f xs = Inr (m :: bool list) \<Longrightarrow> m = map (\<lambda>x. f x = Inr True) xs"
  by (induction xs arbitrary: m) (auto split: sum.splits)

lemma traverse_defined:
  "(\<exists>ys. traverse f xs = Inr ys) \<longleftrightarrow> (\<forall>x \<in> set xs. \<exists>y. f x = Inr y)"
  by (induction xs) (auto split: sum.splits)

lemma zip_map_filter: "map fst (filter snd (zip xs (map q xs))) = filter q xs"
  by (induction xs) auto

lemma col_mask_Inr:
  assumes "col_mask c f df = Inr m"
  shows "c \<in> set (columns df)"
    and "\<forall>r \<in> set (rows df). \<exists>b. f (r c) = Inr b"
    and "loc df m = df\<lparr>rows := filter (\<lambda>r. f (r c) = Inr True) (rows df)\<rparr>"
proof -
  show c: "c \<in> set (columns df)"
    using assms by (auto simp: col_mask_def getitem_def split: if_splits)
  have t: "traverse f (map (\<lambda>r. r c) (rows df)) = Inr m"
    using assms c by (simp add: col_mask_def getitem_def)
  have "\<forall>x \<in> set (map (\<lambda>r. r c) (rows df)). \<exists>y. f x = Inr y"
    using t traverse_defined [of f "map (\<lambda>r. r c) (rows df)"] by blast
  then show "\<forall>r \<in> set (rows df). \<exists>b. f (r c) = Inr b" by simp
  have "m = map (\<lambda>r. f (r c) = Inr True) (rows df)"
    using traverse_mask [OF t] by (simp add: comp_def)
  then show "loc df m = df\<lparr>rows := filter (\<lambda>r. f (r c) = Inr True) (rows df)\<rparr>"
    by (simp add: loc_def zip_map_filter)
qed

lemma col_mask_defined:
  assumes "c \<in> set (columns df)" and "\<forall>r \<in> set (rows df). \<exists>b. f (r c) = Inr b"
  shows "\<exists>m. col_mask c f df = Inr m"
proof -
  have "\<forall>x \<in> set (map (\<lambda>r. r c) (rows df)). \<exists>y. f x = Inr y"
    using assms(2) by simp
  then have "\<exists>m. traverse f (map (\<lambda>r. r c) (rows df)) = Inr m"
    using traverse_defined [of f "map (\<lambda>r. r c) (rows df)"] by blast
  then show ?thesis using assms(1) by (simp add: col_mask_def getitem_def)
qed

lemma index_by_col_mask:
  assumes "index_by h r (col_mask c f) = Inr (h', r')"
  shows "h' = h @ [(h ! r)\<lparr>rows := filter (\<lambda>x. f (x c) = Inr True) (rows (h ! r))\<rparr>]"
    and "r' = length h"
    and "c \<in> set (columns (h ! r))"
    and "\<forall>x \<in> set (rows (h ! r)). \<exists>b. f (x c) = Inr b"
proof -
  obtain m where m: "col_mask c f (h ! r) = Inr m"
    and hr: "(h', r') = new_frame h (loc (h ! r) m)"
    using assms by (auto simp: index_by_def split: sum.splits)
  show "h' = h @ [(h ! r)\<lparr>rows := filter (\<lambda>x. f (x c) = Inr True) (rows (h ! r))\<rparr>]"
    using hr col_mask_Inr(3) [OF m] by (simp add: new_frame_def)
  show "r' = length h" using hr by (simp add: new_frame_def)
  show "c \<in> set (columns (h ! r))" by (rule col_mask_Inr(1) [OF m])
  show "\<forall>x \<in> set (rows (h ! r)). \<exists>b. f (x c) = Inr b" by (rule col_mask_Inr(2) [OF m])
qed

lemma index_by_col_mask_defined:
  assumes "c \<in> set (columns (h ! r))" and "\<forall>x \<in> set (rows (h ! r)). \<exists>b. f (x c) = Inr b"
  shows "index_by h r (col_mask c f) =
     Inr (h @ [(h ! r)\<lparr>rows := filter (\<lambda>x. f (x c) = Inr True) (rows (h ! r))\<rparr>], length h)"
proof -
  obtain m where m: "col_mask c f (h ! r) = Inr m"
    using col_mask_defined [OF assms] by blast
  show ?thesis
    using m col_mask_Inr(3) [OF m] by (simp add: index_by_def new_frame_def)
qed

lemma case_sum_Inr_iff:
  "(case_sum Inl f m = Inr y) = (\<exists>x. m = Inr x \<and> f x = Inr y)"
  by (cases m) auto

lemma narrowed_refl: "r < length h \<Longrightarrow> narrowed (h, r) (\<lambda>x. True) (h, r)"
  by (simp add: narrowed_def)

lemma narrowed_refl': "snd s < length (fst s) \<Longrightarrow> narrowed s (\<lambda>x. True) s"
  by (simp add: narrowed_def)

lemma narrowed_trans:
  assumes "narrowed s P s'" and "narrowed s' Q s''"
  shows "narrowed s (\<lambda>x. P x \<and> Q x) s''"
proof -
  have a: "fst s = take (length (fst s)) (fst s')" "length (fst s) \<le> length (fst s')"
    "snd s < length (fst s)" "snd s' < length (fst s')"
    "fst s' ! snd s' = (fst s ! snd s)\<lparr>rows := filter P (rows (fst s ! snd s))\<rparr>"
    "snd s \<le> snd s'"
    using assms(1) by (simp_all add: narrowed_def)
  have b: "fst s' = take (length (fst s')) (fst s'')" "length (fst s') \<le> length (fst s'')"
    "snd s'' < length (fst s'')"
    "fst s'' ! snd s'' = (fst s' ! snd s')\<lparr>rows := filter Q (rows (fst s' ! snd s'))\<rparr>"
    "snd s' \<le> snd s''"
    using assms(2) by (simp_all add: narrowed_def)
  have "take (length (fst s)) (fst s'') = take (length (fst s)) (take (length (fst s')) (fst s''))"
    using a(2) by (simp add: min_def)
  then have c: "fst s = take (length (fst s)) (fst s'')" using a(1) b(1) by simp
  have "fst s'' ! snd s'' = (fst s ! snd s)\<lparr>rows := filter (\<lambda>x. P x \<and> Q x) (rows (fst s ! snd s))\<rparr>"
    using a(5) b(4) by (simp add: conj_commute)
  then show ?thesis using a b c by (simp add: narrowed_def)
qed

lemma narrowed_copy: "r < length h \<Longrightarrow> narrowed (h, r) (\<lambda>x. True) (df_copy h r)"
  by (simp add: narrowed_def df_copy_def new_frame_def nth_append)

lemma narrowed_index_by:
  assumes "index_by h r (col_mask c f) = Inr s'" and "r < length h"
  shows "narrowed (h, r) (\<lambda>x. f (x c) = Inr True) s'"
proof -
  obtain h' r' where s': "s' = (h', r')" by (cases s')
  show ?thesis
    using index_by_col_mask(1,2) [OF assms(1) [unfolded s']] assms(2)
    by (simp add: narrowed_def s' nth_append)
qed

lemma cmp_date_defined: "(\<exists>b. cmp_date p v = Inr b) = (v = Null \<or> (\<exists>d. v = Day d))"
  by (cases v) (auto simp: cmp_date_def)

lemma zip_map_conj:
  "map (\<lambda>(a, b). a \<and> b) (zip (map p xs) (map q xs)) = map (\<lambda>x. p x \<and> q x) xs"
  by (induction xs) auto

lemma cmp_date_True: "(cmp_date p v = Inr True) = (\<exists>d. v = Day d \<and> p d)"
  by (cases v) (simp_all add: cmp_date_def)

lemma date_mask_Inr:
  assumes "date_mask dr df = Inr m"
  shows "''Date'' \<in> set (columns df)"
    and "\<forall>x \<in> set (rows df). x ''Date'' = Null \<or> (\<exists>d. x ''Date'' = Day d)"
    and "loc df m = df\<lparr>rows := filter (\<lambda>x. \<exists>d. x ''Date'' = Day d \<and> dr ! 0 \<le> d \<and> d \<le> dr ! 1) (rows df)\<rparr>"
proof -
  obtain m1 m2 where m1: "col_mask ''Date'' (cmp_date (\<lambda>d. dr ! 0 \<le> d)) df = Inr m1"
    and m2: "col_mask ''Date'' (cmp_date (\<lambda>d. d \<le> dr ! 1)) df = Inr m2"
    and m: "m = map (\<lambda>(a, b). a \<and> b) (zip m1 m2)"
    using assms by (auto simp: date_mask_def split: sum.splits)
  show c: "''Date'' \<in> set (columns df)" by (rule col_mask_Inr(1) [OF m1])
  show "\<forall>x \<in> set (rows df). x ''Date'' = Null \<or> (\<exists>d. x ''Date'' = Day d)"
    using col_mask_Inr(2) [OF m1] by (simp add: cmp_date_defined)
  have t1: "m1 = map (\<lambda>x. cmp_date (\<lambda>d. dr ! 0 \<le> d) (x ''Date'') = Inr True) (rows df)"
    using m1 c traverse_mask [of "cmp_date (\<lambda>d. dr ! 0 \<le> d)" "map (\<lambda>r. r ''Date'') (rows df)" m1]
    by (simp add: col_mask_def getitem_def comp_def)
  have t2: "m2 = map (\<lambda>x. cmp_date (\<lambda>d. d \<le> dr ! 1) (x ''Date'') = Inr True) (rows df)"
    using m2 c traverse_mask [of "cmp_date (\<lambda>d. d \<le> dr ! 1)" "map (\<lambda>r. r ''Date'') (rows df)" m2]
    by (simp add: col_mask_def getitem_def comp_def)
  have "m = map (\<lambda>x. \<exists>d. x ''Date'' = Day d \<and> dr ! 0 \<le> d \<and> d \<le> dr ! 1) (rows df)"
    unfolding m t1 t2 zip_map_conj by (auto simp: cmp_date_True)
  then show "loc df m = df\<lparr>rows := filter (\<lambda>x. \<exists>d. x ''Date'' = Day d \<and> dr ! 0 \<le> d \<and> d \<le> dr ! 1) (rows df)\<rparr>"
    by (simp add: loc_def zip_map_filter)
qed

lemma date_mask_defined:
  assumes "''Date'' \<in> set (columns df)"
    and "\<forall>x \<in> set (rows df). x ''Date'' = Null \<or> (\<exists>d. x ''Date'' = Day d)"
  shows "\<exists>m. date_mask dr df = Inr m"
proof -
  have d: "\<forall>x \<in> set (rows df). \<exists>b. cmp_date p (x ''Date'') = Inr b" for p
    using assms(2) by (simp add: cmp_date_defined)
  obtain m1 where m1: "col_mask ''Date'' (cmp_date (\<lambda>d. dr ! 0 \<le> d)) df = Inr m1"
    using col_mask_defined [OF assms(1) d] by blast
  obtain m2 where m2: "col_mask ''Date'' (cmp_date (\<lambda>d. d \<le> dr ! 1)) df = Inr m2"
    using col_mask_defined [OF assms(1) d] by blast
  show ?thesis using m1 m2 by (simp add: date_mask_def)
qed

lemma narrowed_date:
  assumes "index_by h r (date_mask dr) = Inr s'" and "r < length h"
  shows "narrowed (h, r) (\<lambda>x. \<exists>d. x ''Date'' = Day d \<and> dr ! 0 \<le> d \<and> d \<le> dr ! 1) s'"
    and "''Date'' \<in> set (columns (h ! r))"
    and "\<forall>x \<in> set (rows (h ! r)). x ''Date'' = Null \<or> (\<exists>d. x ''Date'' = Day d)"
proof -
  obtain m where m: "date_mask dr (h ! r) = Inr m" and s': "s' = new_frame h (loc (h ! r) m)"
    using assms(1) by (auto simp: index_by_def split: sum.splits)
  show "narrowed (h, r) (\<lambda>x. \<exists>d. x ''Date'' = Day d \<and> dr ! 0 \<le> d \<and> d \<le> dr ! 1) s'"
    using date_mask_Inr(3) [OF m] assms(2) by (simp add: narrowed_def s' new_frame_def)
  show "''Date'' \<in> set (columns (h ! r))" by (rule date_mask_Inr(1) [OF m])
  show "\<forall>x \<in> set (rows (h ! r)). x ''Date'' = Null \<or> (\<exists>d. x ''Date'' = Day d)"
    by (rule date_mask_Inr(2) [OF m])
qed

lemma narrowed_frame:
  "narrowed s P s' \<Longrightarrow> columns (fst s' ! snd s') = columns (fst s ! snd s)
     \<and> rows (fst s' ! snd s') = filter P (rows (fst s ! snd s)) \<and> snd s' < length (fst s')"
  by (simp add: narrowed_def)

lemma isin_True: "(isin vs v = Inr True) = (v \<in> set vs)"
  by (simp add: isin_def)

lemma eq_str_True: "(eq_str s v = Inr True) = (v = Str s)"
  by (simp add: eq_str_def)

lemma eq_bool_False_True: "(eq_bool False v = Inr True) = (v = Bool False \<or> v = Num 0)"
  by (cases v) (auto simp: eq_bool_def)

lemma eq_bool_True_True: "(eq_bool True v = Inr True) = (v = Bool True \<or> v = Num 1)"
  by (cases v) (auto simp: eq_bool_def)

lemma isin_defined: "\<forall>v. \<exists>b. isin vs v = Inr b"
  by (simp add: isin_def)

lemma eq_str_defined: "\<forall>v. \<exists>b. eq_str s v = Inr b"
  by (simp add: eq_str_def)

lemma eq_bool_defined: "\<forall>v. \<exists>b. eq_bool c v = Inr b"
proof
  fix v show "\<exists>b. eq_bool c v = Inr b" by (cases v) (auto simp: eq_bool_def)
qed

lemma narrowed_cong: "narrowed s P s' \<Longrightarrow> (\<And>x. P x = Q x) \<Longrightarrow> narrowed s Q s'"
proof -
  assume a: "narrowed s P s'" and b: "\<And>x. P x = Q x"
  have "P = Q" using b by (rule ext)
  then show ?thesis using a by simp
qed

lemma narrowed_valid: "narrowed s P s' \<Longrightarrow> snd s' < length (fst s')"
  by (simp add: narrowed_def)

lemma narrowed_opt:
  assumes "(if c then index_by (fst s) (snd s) (col_mask k f) else Inr s) = Inr s'"
    and "snd s < length (fst s)"
  shows "narrowed s (\<lambda>x. c \<longrightarrow> f (x k) = Inr True) s'"
    and "c \<longrightarrow> k \<in> set (columns (fst s ! snd s))"
proof -
  show "narrowed s (\<lambda>x. c \<longrightarrow> f (x k) = Inr True) s'"
  proof (cases c)
    case True
    then have "index_by (fst s) (snd s) (col_mask k f) = Inr s'" using assms(1) by simp
    from narrowed_index_by [OF this assms(2)] True show ?thesis by simp
  next
    case False
    then have "s' = s" using assms(1) by simp
    then show ?thesis using False narrowed_refl [OF assms(2)] by simp
  qed
  show "c \<longrightarrow> k \<in> set (columns (fst s ! snd s))"
  proof
    assume c
    then have i: "index_by (fst s) (snd s) (col_mask k f) = Inr (fst s', snd s')"
      using assms(1) by simp
    show "k \<in> set (columns (fst s ! snd s))" by (rule index_by_col_mask(3) [OF i])
  qed
qed

lemma apply_filters_steps:
  "(apply_filters h df dr gs ics dm ip = Inr s') =
   (\<exists>s1 s2 s3 s4.
      (if length dr = 2 then index_by (fst (df_copy h df)) (snd (df_copy h df)) (date_mask dr)
       else Inr (df_copy h df)) = Inr s1
    \<and> index_by (fst s1) (snd s1) (col_mask ''Interconnector Group'' (isin gs)) = Inr s2
    \<and> index_by (fst s2) (snd s2) (col_mask ''Interconnector'' (isin ics)) = Inr s3
    \<and> (if \<not> ip then index_by (fst s3) (snd s3) (col_mask ''IsPartialHour'' (eq_bool False))
        else Inr s3) = Inr s4
    \<and> (if dm = ''Import''
        then index_by (fst s4) (snd s4) (col_mask ''Trade_Direction'' (eq_str ''Import''))
        else if dm = ''Export''
        then index_by (fst s4) (snd s4) (col_mask ''Trade_Direction'' (eq_str ''Export''))
        else Inr s4) = Inr s')"
  unfolding apply_filters_def
  by (simp add: case_sum_Inr_iff split_beta split del: if_split cong: if_cong)

lemma apply_filters_narrowed:
  assumes "apply_filters h df dr gs ics dm ip = Inr s'" and "df < length h"
  shows "narrowed (h, df) (passes dr gs ics dm ip) s'"
    and "filterable dr dm ip (h ! df)"
    and "length h \<le> snd s'"
proof -
  define s0 where "s0 = df_copy h df"
  obtain s1 s2 s3 s4 where
    e1: "(if length dr = 2 then index_by (fst s0) (snd s0) (date_mask dr) else Inr s0) = Inr s1"
    and e2: "index_by (fst s1) (snd s1) (col_mask ''Interconnector Group'' (isin gs)) = Inr s2"
    and e3: "index_by (fst s2) (snd s2) (col_mask ''Interconnector'' (isin ics)) = Inr s3"
    and e4: "(if \<not> ip then index_by (fst s3) (snd s3) (col_mask ''IsPartialHour'' (eq_bool False))
              else Inr s3) = Inr s4"
    and e5: "(if dm = ''Import''
        then index_by (fst s4) (snd s4) (col_mask ''Trade_Direction'' (eq_str ''Import''))
        else if dm = ''Export''
        then index_by (fst s4) (snd s4) (col_mask ''Trade_Direction'' (eq_str ''Export''))
        else Inr s4) = Inr s'"
    using assms(1) unfolding apply_filters_steps s0_def by blast
  have n0: "narrowed (h, df) (\<lambda>x. True) s0"
    unfolding s0_def by (rule narrowed_copy [OF assms(2)])
  have v0: "snd s0 < length (fst s0)" by (rule narrowed_valid [OF n0])
  have f0: "fst s0 ! snd s0 = h ! df" using n0 by (simp add: narrowed_def)
  have n1: "narrowed s0 (\<lambda>x. length dr = 2 \<longrightarrow>
              (\<exists>d. x ''Date'' = Day d \<and> dr ! 0 \<le> d \<and> d \<le> dr ! 1)) s1"
    and g1: "length dr = 2 \<longrightarrow> ''Date'' \<in> set (columns (h ! df))
              \<and> (\<forall>x \<in> set (rows (h ! df)). x ''Date'' = Null \<or> (\<exists>d. x ''Date'' = Day d))"
  proof -
    show "narrowed s0 (\<lambda>x. length dr = 2 \<longrightarrow>
              (\<exists>d. x ''Date'' = Day d \<and> dr ! 0 \<le> d \<and> d \<le> dr ! 1)) s1"
    proof (cases "length dr = 2")
      case True
      then have "index_by (fst s0) (snd s0) (date_mask dr) = Inr s1" using e1 by simp
      from narrowed_date(1) [OF this v0] True show ?thesis by simp
    next
      case False
      then have "s1 = s0" using e1 by simp
      then show ?thesis using False narrowed_refl [OF v0] by simp
    qed
    show "length dr = 2 \<longrightarrow> ''Date'' \<in> set (columns (h ! df))
              \<and> (\<forall>x \<in> set (rows (h ! df)). x ''Date'' = Null \<or> (\<exists>d. x ''Date'' = Day d))"
    proof
      assume "length dr = 2"
      then have i: "index_by (fst s0) (snd s0) (date_mask dr) = Inr s1" using e1 by simp
      show "''Date'' \<in> set (columns (h ! df))
              \<and> (\<forall>x \<in> set (rows (h ! df)). x ''Date'' = Null \<or> (\<exists>d. x ''Date'' = Day d))"
        using narrowed_date(2,3) [OF i v0] f0 by simp
    qed
  qed
  have v1: "snd s1 < length (fst s1)" by (rule narrowed_valid [OF n1])
  have c1: "columns (fst s1 ! snd s1) = columns (h ! df)"
    using narrowed_frame [OF n1] f0 by simp
  have n2: "narrowed s1 (\<lambda>x. isin gs (x ''Interconnector Group'') = Inr True) s2"
    using narrowed_index_by [OF e2 v1] by simp
  have g2: "''Interconnector Group'' \<in> set (columns (h ! df))"
    using index_by_col_mask(3) [of "fst s1" "snd s1" _ _ "fst s2" "snd s2"] e2 c1 by simp
  have v2: "snd s2 < length (fst s2)" by (rule narrowed_valid [OF n2])
  have c2: "columns (fst s2 ! snd s2) = columns (h ! df)"
    using narrowed_frame [OF n2] c1 by simp
  have n3: "narrowed s2 (\<lambda>x. isin ics (x ''Interconnector'') = Inr True) s3"
    using narrowed_index_by [OF e3 v2] by simp
  have g3: "''Interconnector'' \<in> set (columns (h ! df))"
    using index_by_col_mask(3) [of "fst s2" "snd s2" _ _ "fst s3" "snd s3"] e3 c2 by simp
  have v3: "snd s3 < length (fst s3)" by (rule narrowed_valid [OF n3])
  have c3: "columns (fst s3 ! snd s3) = columns (h ! df)"
    using narrowed_frame [OF n3] c2 by simp
  have n4: "narrowed s3 (\<lambda>x. \<not> ip \<longrightarrow> eq_bool False (x ''IsPartialHour'') = Inr True) s4"
    by (rule narrowed_opt(1) [OF e4 v3])
  have g4: "\<not> ip \<longrightarrow> ''IsPartialHour'' \<in> set (columns (h ! df))"
    using narrowed_opt(2) [OF e4 v3] c3 by simp
  have v4: "snd s4 < length (fst s4)" by (rule narrowed_valid [OF n4])
  have c4: "columns (fst s4 ! snd s4) = columns (h ! df)"
    using narrowed_frame [OF n4] c3 by simp
  have n5: "narrowed s4 (\<lambda>x. (dm = ''Import'' \<longrightarrow> x ''Trade_Direction'' = Str ''Import'')
              \<and> (dm = ''Export'' \<longrightarrow> x ''Trade_Direction'' = Str ''Export'')) s'"
    and g5: "dm = ''Import'' \<or> dm = ''Export'' \<longrightarrow> ''Trade_Direction'' \<in> set (columns (h ! df))"
  proof -
    consider (imp) "dm = ''Import''" | (exp) "dm \<noteq> ''Import''" "dm = ''Export''"
      | (both) "dm \<noteq> ''Import''" "dm \<noteq> ''Export''" by blast
    then have "narrowed s4 (\<lambda>x. (dm = ''Import'' \<longrightarrow> x ''Trade_Direction'' = Str ''Import'')
              \<and> (dm = ''Export'' \<longrightarrow> x ''Trade_Direction'' = Str ''Export'')) s'
            \<and> (dm = ''Import'' \<or> dm = ''Export'' \<longrightarrow> ''Trade_Direction'' \<in> set (columns (h ! df)))"
    proof cases
      case imp
      then have i: "index_by (fst s4) (snd s4) (col_mask ''Trade_Direction'' (eq_str ''Import'')) = Inr s'"
        using e5 by simp
      have "''Trade_Direction'' \<in> set (columns (h ! df))"
        using index_by_col_mask(3) [of "fst s4" "snd s4" _ _ "fst s'" "snd s'"] i c4 by simp
      then show ?thesis using narrowed_index_by [OF i v4] imp by (simp add: eq_str_True)
    next
      case exp
      then have i: "index_by (fst s4) (snd s4) (col_mask ''Trade_Direction'' (eq_str ''Export'')) = Inr s'"
        using e5 by simp
      have "''Trade_Direction'' \<in> set (columns (h ! df))"
        using index_by_col_mask(3) [of "fst s4" "snd s4" _ _ "fst s'" "snd s'"] i c4 by simp
      then show ?thesis using narrowed_index_by [OF i v4] exp by (simp add: eq_str_True)
    next
      case both
      then have "s' = s4" using e5 by simp
      then show ?thesis using both narrowed_refl [OF v4] by simp
    qed
    then show "narrowed s4 (\<lambda>x. (dm = ''Import'' \<longrightarrow> x ''Trade_Direction'' = Str ''Import'')
              \<and> (dm = ''Export'' \<longrightarrow> x ''Trade_Direction'' = Str ''Export'')) s'"
      and "dm = ''Import'' \<or> dm = ''Export'' \<longrightarrow> ''Trade_Direction'' \<in> set (columns (h ! df))"
      by simp_all
  qed
  note chain = narrowed_trans [OF narrowed_trans [OF narrowed_trans [OF narrowed_trans
                 [OF narrowed_trans [OF n0 n1] n2] n3] n4] n5]
  show "narrowed (h, df) (passes dr gs ics dm ip) s'"
    by (rule narrowed_cong [OF chain])
       (simp add: passes_def isin_True eq_bool_False_True conj_ac)
  show "filterable dr dm ip (h ! df)"
    using g1 g2 g3 g4 g5 by (simp add: filterable_def)
  have "narrowed s0 (\<lambda>x. True) s0" by (rule narrowed_refl' [OF v0])
  note tail = narrowed_trans [OF narrowed_trans [OF narrowed_trans [OF narrowed_trans
                 [OF narrowed_trans [OF this n1] n2] n3] n4] n5]
  have "snd s0 = length h" by (simp add: s0_def df_copy_def new_frame_def)
  then show "length h \<le> snd s'" using tail by (simp add: narrowed_def)
qed


lemma stage_defined:
  assumes "snd s < length (fst s)" and "c \<in> set (columns (fst s ! snd s))"
    and "\<forall>v. \<exists>b. f v = Inr b"
  shows "\<exists>s'. index_by (fst s) (snd s) (col_mask c f) = Inr s'
            \<and> columns (fst s' ! snd s') = columns (fst s ! snd s)
            \<and> snd s' < length (fst s')"
proof -
  have "\<forall>x \<in> set (rows (fst s ! snd s)). \<exists>b. f (x c) = Inr b" using assms(3) by simp
  from index_by_col_mask_defined [OF assms(2) this]
  obtain s' where i: "index_by (fst s) (snd s) (col_mask c f) = Inr s'" by blast
  have "narrowed s (\<lambda>x. f (x c) = Inr True) s'"
    using narrowed_index_by [OF i assms(1)] by simp
  then show ?thesis using i narrowed_frame by blast
qed

lemma apply_filters_defined:
  assumes "filterable dr dm ip (h ! df)" and "df < length h"
  shows "\<exists>s'. apply_filters h df dr gs ics dm ip = Inr s'"
proof -
  define s0 where "s0 = df_copy h df"
  have n0: "narrowed (h, df) (\<lambda>x. True) s0"
    unfolding s0_def by (rule narrowed_copy [OF assms(2)])
  have v0: "snd s0 < length (fst s0)" by (rule narrowed_valid [OF n0])
  have f0: "fst s0 ! snd s0 = h ! df" using n0 by (simp add: narrowed_def)
  have "\<exists>s1. (if length dr = 2 then index_by (fst s0) (snd s0) (date_mask dr) else Inr s0) = Inr s1
         \<and> columns (fst s1 ! snd s1) = columns (h ! df) \<and> snd s1 < length (fst s1)"
  proof (cases "length dr = 2")
    case True
    then have "''Date'' \<in> set (columns (fst s0 ! snd s0))"
      and "\<forall>x \<in> set (rows (fst s0 ! snd s0)). x ''Date'' = Null \<or> (\<exists>d. x ''Date'' = Day d)"
      using assms(1) f0 by (simp_all add: filterable_def)
    from date_mask_defined [OF this] obtain m where "date_mask dr (fst s0 ! snd s0) = Inr m"
      by blast
    then obtain s1 where i: "index_by (fst s0) (snd s0) (date_mask dr) = Inr s1"
      by (simp add: index_by_def)
    from narrowed_frame [OF narrowed_date(1) [OF i v0]] f0 i True show ?thesis by simp
  next
    case False
    then show ?thesis using v0 f0 by simp
  qed
  then obtain s1 where
    e1: "(if length dr = 2 then index_by (fst s0) (snd s0) (date_mask dr) else Inr s0) = Inr s1"
    and c1: "columns (fst s1 ! snd s1) = columns (h ! df)" and v1: "snd s1 < length (fst s1)"
    by blast
  have "''Interconnector Group'' \<in> set (columns (fst s1 ! snd s1))"
    using assms(1) c1 by (simp add: filterable_def)
  from stage_defined [OF v1 this isin_defined [of gs]] obtain s2 where
    e2: "index_by (fst s1) (snd s1) (col_mask ''Interconnector Group'' (isin gs)) = Inr s2"
    and c2: "columns (fst s2 ! snd s2) = columns (h ! df)" and v2: "snd s2 < length (fst s2)"
    using c1 by auto
  have "''Interconnector'' \<in> set (columns (fst s2 ! snd s2))"
    using assms(1) c2 by (simp add: filterable_def)
  from stage_defined [OF v2 this isin_defined [of ics]] obtain s3 where
    e3: "index_by (fst s2) (snd s2) (col_mask ''Interconnector'' (isin ics)) = Inr s3"
    and c3: "columns (fst s3 ! snd s3) = columns (h ! df)" and v3: "snd s3 < length (fst s3)"
    using c2 by auto
  have "\<exists>s4. (if \<not> ip then index_by (fst s3) (snd s3) (col_mask ''IsPartialHour'' (eq_bool False))
              else Inr s3) = Inr s4
         \<and> columns (fst s4 ! snd s4) = columns (h ! df) \<and> snd s4 < length (fst s4)"
  proof (cases ip)
    case True
    then show ?thesis using c3 v3 by simp
  next
    case False
    then have "''IsPartialHour'' \<in> set (columns (fst s3 ! snd s3))"
      using assms(1) c3 by (simp add: filterable_def)
    from stage_defined [OF v3 this eq_bool_defined [of False]] False c3 show ?thesis by auto
  qed
  then obtain s4 where
    e4: "(if \<not> ip then index_by (fst s3) (snd s3) (col_mask ''IsPartialHour'' (eq_bool False))
              else Inr s3) = Inr s4"
    and c4: "columns (fst s4 ! snd s4) = columns (h ! df)" and v4: "snd s4 < length (fst s4)"
    by blast
  have "\<exists>s'. (if dm = ''Import''
        then index_by (fst s4) (snd s4) (col_mask ''Trade_Direction'' (eq_str ''Import''))
        else if dm = ''Export''
        then index_by (fst s4) (snd s4) (col_mask ''Trade_Direction'' (eq_str ''Export''))
        else Inr s4) = Inr s'"
  proof (cases "dm = ''Import'' \<or> dm = ''Export''")
    case True
    then have "''Trade_Direction'' \<in> set (columns (fst s4 ! snd s4))"
      using assms(1) c4 by (simp add: filterable_def)
    from stage_defined [OF v4 this eq_str_defined [of "''Import''"]]
      stage_defined [OF v4 this eq_str_defined [of "''Export''"]]
    show ?thesis by auto
  next
    case False
    then show ?thesis by simp
  qed
  then show ?thesis
    unfolding apply_filters_steps using e1 e2 e3 e4 unfolding s0_def by blast
qed

lemma filterable_subset:
  assumes "filterable dr dm ip df" and "columns df' = columns df"
    and "set (rows df') \<subseteq> set (rows df)"
  shows "filterable dr dm ip df'"
  using assms by (auto simp: filterable_def)

lemma apply_filters_twice:
  assumes "df < length h" and "apply_filters h df dr gs ics dm ip = Inr (h1, r1)"
  shows "\<exists>h2 r2. apply_filters h1 r1 dr gs ics dm ip = Inr (h2, r2) \<and> h2 ! r2 = h1 ! r1"
proof -
  have n: "narrowed (h, df) (passes dr gs ics dm ip) (h1, r1)"
    and g: "filterable dr dm ip (h ! df)"
    using apply_filters_narrowed(1,2) [OF assms(2) assms(1)] by simp_all
  have fr: "columns (h1 ! r1) = columns (h ! df)"
    "rows (h1 ! r1) = filter (passes dr gs ics dm ip) (rows (h ! df))" "r1 < length h1"
    using narrowed_frame [OF n] by simp_all
  have "filterable dr dm ip (h1 ! r1)"
    by (rule filterable_subset [OF g fr(1)]) (simp add: fr(2))
  from apply_filters_defined [OF this fr(3), of gs ics]
  obtain h2 r2 where a2: "apply_filters h1 r1 dr gs ics dm ip = Inr (h2, r2)" by auto
  have "narrowed (h1, r1) (passes dr gs ics dm ip) (h2, r2)"
    by (rule apply_filters_narrowed(1) [OF a2 fr(3)])
  then have "h2 ! r2 = (h1 ! r1)\<lparr>rows := filter (passes dr gs ics dm ip) (rows (h1 ! r1))\<rparr>"
    by (simp add: narrowed_def)
  also have "\<dots> = h1 ! r1" by (simp add: fr(2))
  finally show ?thesis using a2 by blast
qed


lemma stage_opt_defined:
  assumes "snd s < length (fst s)" and "c \<longrightarrow> k \<in> set (columns (fst s ! snd s))"
    and "\<forall>v. \<exists>b. f v = Inr b"
  shows "\<exists>s'. (if c then index_by (fst s) (snd s) (col_mask k f) else Inr s) = Inr s'
            \<and> columns (fst s' ! snd s') = columns (fst s ! snd s)
            \<and> snd s' < length (fst s')"
proof (cases c)
  case True
  then have "k \<in> set (columns (fst s ! snd s))" using assms(2) by simp
  from stage_defined [OF assms(1) this assms(3)] True show ?thesis by simp
next
  case False
  then show ?thesis using assms(1) by simp
qed

lemma filtered_annual_steps:
  "(filtered_annual h df ff bf ao = Inr s') =
   (\<exists>s1 s2.
      index_by (fst (df_copy h df)) (snd (df_copy h df))
        (col_mask ''Fuel'' (isin (map Str ff))) = Inr s1
    \<and> (if bf \<noteq> [] then index_by (fst s1) (snd s1) (col_mask ''BMU'' (isin (map Str bf)))
        else Inr s1) = Inr s2
    \<and> (if ao then index_by (fst s2) (snd s2) (col_mask ''NeedsAttention'' (eq_bool True))
        else Inr s2) = Inr s')"
  unfolding filtered_annual_def
  by (simp add: case_sum_Inr_iff split_beta split del: if_split cong: if_cong)

lemma filtered_annual_narrowed:
  assumes "filtered_annual h df ff bf ao = Inr s'" and "df < length h"
  shows "narrowed (h, df)
           (\<lambda>x. x ''Fuel'' \<in> set (map Str ff)
               \<and> (bf \<noteq> [] \<longrightarrow> x ''BMU'' \<in> set (map Str bf))
               \<and> (ao \<longrightarrow> x ''NeedsAttention'' = Bool True \<or> x ''NeedsAttention'' = Num 1)) s'"
    and "length h \<le> snd s'"
proof -
  define s0 where "s0 = df_copy h df"
  obtain s1 s2 where
    e1: "index_by (fst s0) (snd s0) (col_mask ''Fuel'' (isin (map Str ff))) = Inr s1"
    and e2: "(if bf \<noteq> [] then index_by (fst s1) (snd s1) (col_mask ''BMU'' (isin (map Str bf)))
              else Inr s1) = Inr s2"
    and e3: "(if ao then index_by (fst s2) (snd s2) (col_mask ''NeedsAttention'' (eq_bool True))
              else Inr s2) = Inr s'"
    using assms(1) unfolding filtered_annual_steps s0_def by blast
  have n0: "narrowed (h, df) (\<lambda>x. True) s0"
    unfolding s0_def by (rule narrowed_copy [OF assms(2)])
  have v0: "snd s0 < length (fst s0)" by (rule narrowed_valid [OF n0])
  have n1: "narrowed s0 (\<lambda>x. isin (map Str ff) (x ''Fuel'') = Inr True) s1"
    using narrowed_index_by [OF e1 v0] by simp
  have v1: "snd s1 < length (fst s1)" by (rule narrowed_valid [OF n1])
  have n2: "narrowed s1 (\<lambda>x. bf \<noteq> [] \<longrightarrow> isin (map Str bf) (x ''BMU'') = Inr True) s2"
    by (rule narrowed_opt(1) [OF e2 v1])
  have v2: "snd s2 < length (fst s2)" by (rule narrowed_valid [OF n2])
  have n3: "narrowed s2 (\<lambda>x. ao \<longrightarrow> eq_bool True (x ''NeedsAttention'') = Inr True) s'"
    by (rule narrowed_opt(1) [OF e3 v2])
  note chain = narrowed_trans [OF narrowed_trans [OF narrowed_trans [OF n0 n1] n2] n3]
  show "narrowed (h, df)
           (\<lambda>x. x ''Fuel'' \<in> set (map Str ff)
               \<and> (bf \<noteq> [] \<longrightarrow> x ''BMU'' \<in> set (map Str bf))
               \<and> (ao \<longrightarrow> x ''NeedsAttention'' = Bool True \<or> x ''NeedsAttention'' = Num 1)) s'"
    by (rule narrowed_cong [OF chain]) (simp add: isin_True eq_bool_True_True)
  note tail = narrowed_trans [OF narrowed_trans [OF n1 n2] n3]
  have "snd s0 = length h" by (simp add: s0_def df_copy_def new_frame_def)
  then show "length h \<le> snd s'" using tail by (simp add: narrowed_def)
qed

lemma filtered_annual_defined:
  assumes "df < length h" and "''Fuel'' \<in> set (columns (h ! df))"
    and "bf \<noteq> [] \<longrightarrow> ''BMU'' \<in> set (columns (h ! df))"
    and "ao \<longrightarrow> ''NeedsAttention'' \<in> set (columns (h ! df))"
  shows "\<exists>s'. filtered_annual h df ff bf ao = Inr s'"
proof -
  define s0 where "s0 = df_copy h df"
  have n0: "narrowed (h, df) (\<lambda>x. True) s0"
    unfolding s0_def by (rule narrowed_copy [OF assms(1)])
  have v0: "snd s0 < length (fst s0)" by (rule narrowed_valid [OF n0])
  have f0: "fst s0 ! snd s0 = h ! df" using n0 by (simp add: narrowed_def)
  have "''Fuel'' \<in> set (columns (fst s0 ! snd s0))" using assms(2) f0 by simp
  from stage_defined [OF v0 this isin_defined [of "map Str ff"]] obtain s1 where
    e1: "index_by (fst s0) (snd s0) (col_mask ''Fuel'' (isin (map Str ff))) = Inr s1"
    and c1: "columns (fst s1 ! snd s1) = columns (h ! df)" and v1: "snd s1 < length (fst s1)"
    using f0 by auto
  have "bf \<noteq> [] \<longrightarrow> ''BMU'' \<in> set (columns (fst s1 ! snd s1))" using assms(3) c1 by simp
  from stage_opt_defined [OF v1 this isin_defined [of "map Str bf"]] obtain s2 where
    e2: "(if bf \<noteq> [] then index_by (fst s1) (snd s1) (col_mask ''BMU'' (isin (map Str bf)))
              else Inr s1) = Inr s2"
    and c2: "columns (fst s2 ! snd s2) = columns (h ! df)" and v2: "snd s2 < length (fst s2)"
    using c1 by auto
  have "ao \<longrightarrow> ''NeedsAttention'' \<in> set (columns (fst s2 ! snd s2))" using assms(4) c2 by simp
  from stage_opt_defined [OF v2 this eq_bool_defined [of True]] obtain s' where
    e3: "(if ao then index_by (fst s2) (snd s2) (col_mask ''NeedsAttention'' (eq_bool True))
              else Inr s2) = Inr s'"
    by auto
  show ?thesis unfolding filtered_annual_steps using e1 e2 e3 unfolding s0_def by blast
qed

lemma narrowed_frame_effect:
  assumes "narrowed (h, df) P (h', r')"
  shows "take (length h) h' = h" and "h' ! df = h ! df"
proof -
  have t: "h = take (length h) h'" and l: "df < length h"
    using assms by (simp_all add: narrowed_def)
  show "take (length h) h' = h" using t by simp
  have "h ! df = take (length h) h' ! df" using t by simp
  also have "\<dots> = h' ! df" using l by simp
  finally show "h' ! df = h ! df" by simp
qed

section \<open>The percentile table and the attention flag\<close>

lemma traverse_number_of: "(traverse number_of d = Inr xs) = (d = map Num xs)"
proof (induction d arbitrary: xs)
  case Nil
  show ?case by auto
next
  case (Cons v d)
  show ?case
  proof (cases v)
    case (Num x)
    then show ?thesis using Cons by (cases xs) (auto simp: number_of_def case_sum_Inr_iff)
  qed (auto simp: number_of_def)
qed

lemma traverse_map: "(\<forall>k \<in> set ks. f k = Inr (g k)) \<Longrightarrow> traverse f ks = Inr (map g ks)"
  by (induction ks) auto

lemma filter_eq_distinct: "distinct xs \<Longrightarrow> x \<in> set xs \<Longrightarrow> filter (\<lambda>y. y = x) xs = [x]"
  by (induction xs) (auto simp: filter_empty_conv)

lemma set_strings_of: "set (strings_of col) = {k. Str k \<in> set col}"
  by (induction col rule: strings_of.induct) auto

lemma group_keys_props:
  "distinct (group_keys col)" "set (group_keys col) = {k. Str k \<in> set col}"
  by (simp_all add: group_keys_def set_strings_of)

lemma all_Num_map: "\<forall>v \<in> set d. \<exists>x. v = Num x \<Longrightarrow> \<exists>xs. d = map Num xs"
proof (induction d)
  case Nil
  show ?case by simp
next
  case (Cons v d)
  then obtain x xs where "v = Num x" "d = map Num xs" by auto
  then have "v # d = map Num (x # xs)" by simp
  then show ?case by (rule exI)
qed

lemma p90_of_group_typed:
  assumes "\<forall>v \<in> set s. v = Null \<or> (\<exists>x. v = Num x)"
  shows "\<exists>v. p90_of_group L s = Inr v
           \<and> (filter (\<lambda>v. v \<noteq> Null) s = [] \<longrightarrow> v = Null)
           \<and> (filter (\<lambda>v. v \<noteq> Null) s \<noteq> [] \<longrightarrow>
                (\<exists>xs. map Num xs = filter (\<lambda>v. v \<noteq> Null) s \<and> v = Num (nanpercentile L xs 90)))"
proof -
  define d where "d = filter (\<lambda>v. v \<noteq> Null) s"
  have "\<forall>v \<in> set d. \<exists>x. v = Num x" using assms by (auto simp: d_def)
  then have "\<exists>xs. d = map Num xs" by (rule all_Num_map)
  then obtain xs where xs: "d = map Num xs" by blast
  then have t: "traverse number_of d = Inr xs" by (simp add: traverse_number_of)
  show ?thesis
  proof (cases "d = []")
    case True
    then show ?thesis by (simp add: p90_of_group_def d_def [symmetric])
  next
    case False
    then have "p90_of_group L s = Inr (Num (nanpercentile L xs 90))"
      using t by (simp add: p90_of_group_def d_def [symmetric])
    then show ?thesis using False xs by (auto simp: d_def [symmetric])
  qed
qed


lemma df_monthly_p90_typed:
  assumes "''BMU'' \<in> set (columns dm)" and "''M_ABS_NetError%'' \<in> set (columns dm)"
    and "\<forall>x \<in> set (rows dm). x ''M_ABS_NetError%'' = Null \<or> (\<exists>v. x ''M_ABS_NetError%'' = Num v)"
  shows "\<exists>g. df_monthly_p90 L dm =
            Inr \<lparr>columns = [''BMU'', ''P90_monthly_error''],
                 rows = (if frame_empty dm then []
                         else map (\<lambda>k. p90_row k (g k))
                                (group_keys (map (\<lambda>r. r ''BMU'') (rows dm))))\<rparr>
          \<and> (\<forall>k. (filter (\<lambda>v. v \<noteq> Null) (group_values dm k) = [] \<longrightarrow> g k = Null)
               \<and> (filter (\<lambda>v. v \<noteq> Null) (group_values dm k) \<noteq> [] \<longrightarrow>
                    (\<exists>xs. map Num xs = filter (\<lambda>v. v \<noteq> Null) (group_values dm k)
                        \<and> g k = Num (nanpercentile L xs 90))))"
proof -
  have typed: "\<forall>v \<in> set (group_values dm k). v = Null \<or> (\<exists>x. v = Num x)" for k
    using assms(3) by (auto simp: group_values_def)
  have "\<forall>k. \<exists>v. p90_of_group L (group_values dm k) = Inr v
           \<and> (filter (\<lambda>v. v \<noteq> Null) (group_values dm k) = [] \<longrightarrow> v = Null)
           \<and> (filter (\<lambda>v. v \<noteq> Null) (group_values dm k) \<noteq> [] \<longrightarrow>
                (\<exists>xs. map Num xs = filter (\<lambda>v. v \<noteq> Null) (group_values dm k)
                    \<and> v = Num (nanpercentile L xs 90)))"
    using p90_of_group_typed [OF typed] by blast
  from choice [OF this] obtain g where gg:
    "\<forall>k. p90_of_group L (group_values dm k) = Inr (g k)
           \<and> (filter (\<lambda>v. v \<noteq> Null) (group_values dm k) = [] \<longrightarrow> g k = Null)
           \<and> (filter (\<lambda>v. v \<noteq> Null) (group_values dm k) \<noteq> [] \<longrightarrow>
                (\<exists>xs. map Num xs = filter (\<lambda>v. v \<noteq> Null) (group_values dm k)
                    \<and> g k = Num (nanpercentile L xs 90)))" ..
  have g: "p90_of_group L (group_values dm k) = Inr (g k)" for k using gg by simp
  have gv: "\<forall>k. (filter (\<lambda>v. v \<noteq> Null) (group_values dm k) = [] \<longrightarrow> g k = Null)
           \<and> (filter (\<lambda>v. v \<noteq> Null) (group_values dm k) \<noteq> [] \<longrightarrow>
                (\<exists>xs. map Num xs = filter (\<lambda>v. v \<noteq> Null) (group_values dm k)
                    \<and> g k = Num (nanpercentile L xs 90)))"
    using gg by simp
  have t: "traverse (\<lambda>k. case p90_of_group L (group_values dm k) of
                           Inl e \<Rightarrow> Inl e | Inr v \<Rightarrow> Inr (p90_row k v)) ks
           = Inr (map (\<lambda>k. p90_row k (g k)) ks)" for ks
    by (rule traverse_map) (simp add: g)
  have "df_monthly_p90 L dm =
            Inr \<lparr>columns = [''BMU'', ''P90_monthly_error''],
                 rows = (if frame_empty dm then []
                         else map (\<lambda>k. p90_row k (g k))
                                (group_keys (map (\<lambda>r. r ''BMU'') (rows dm))))\<rparr>"
    using assms(1,2) by (simp add: df_monthly_p90_def getitem_def t)
  then show ?thesis using gv by (intro exI [of _ g] conjI)
qed

lemma p90_row_lookup:
  assumes "distinct ks" and "k \<in> set ks"
  shows "filter (\<lambda>q. q ''BMU'' = Str k) (map (\<lambda>k. p90_row k (g k)) ks) = [p90_row k (g k)]"
proof -
  have "filter (\<lambda>q. q ''BMU'' = Str k) (map (\<lambda>k. p90_row k (g k)) ks)
        = map (\<lambda>k. p90_row k (g k)) (filter (\<lambda>y. y = k) ks)"
    by (simp add: filter_map comp_def p90_row_def)
  then show ?thesis using filter_eq_distinct [OF assms] by simp
qed

lemma monthly_p90_S:
  assumes "''BMU'' \<in> set (columns dm)" and "''M_ABS_NetError%'' \<in> set (columns dm)"
    and "\<forall>x \<in> set (rows dm). x ''M_ABS_NetError%'' = Null \<or> (\<exists>v. x ''M_ABS_NetError%'' = Num v)"
  shows "\<exists>p. df_monthly_p90 L dm = Inr p
     \<and> (\<forall>x \<in> set (rows dm). \<forall>k. x ''BMU'' = Str k \<longrightarrow>
          (\<exists>q. filter (\<lambda>q. q ''BMU'' = Str k) (rows p) = [q]
             \<and> (filter (\<lambda>v. v \<noteq> Null) (group_values dm k) = [] \<longrightarrow>
                   q ''P90_monthly_error'' = Null)
             \<and> (filter (\<lambda>v. v \<noteq> Null) (group_values dm k) \<noteq> [] \<longrightarrow>
                   (\<exists>xs. map Num xs = filter (\<lambda>v. v \<noteq> Null) (group_values dm k)
                       \<and> q ''P90_monthly_error'' = Num (nanpercentile L xs 90)))))"
proof -
  obtain g where p: "df_monthly_p90 L dm =
            Inr \<lparr>columns = [''BMU'', ''P90_monthly_error''],
                 rows = (if frame_empty dm then []
                         else map (\<lambda>k. p90_row k (g k))
                                (group_keys (map (\<lambda>r. r ''BMU'') (rows dm))))\<rparr>"
    and gv: "\<forall>k. (filter (\<lambda>v. v \<noteq> Null) (group_values dm k) = [] \<longrightarrow> g k = Null)
               \<and> (filter (\<lambda>v. v \<noteq> Null) (group_values dm k) \<noteq> [] \<longrightarrow>
                    (\<exists>xs. map Num xs = filter (\<lambda>v. v \<noteq> Null) (group_values dm k)
                        \<and> g k = Num (nanpercentile L xs 90)))"
    using df_monthly_p90_typed [OF assms, of L] by (elim exE conjE)
  let ?p = "\<lparr>columns = [''BMU'', ''P90_monthly_error''],
                 rows = (if frame_empty dm then []
                         else map (\<lambda>k. p90_row k (g k))
                                (group_keys (map (\<lambda>r. r ''BMU'') (rows dm))))\<rparr>"
  have "\<exists>q. filter (\<lambda>q. q ''BMU'' = Str k) (rows ?p) = [q]
             \<and> (filter (\<lambda>v. v \<noteq> Null) (group_values dm k) = [] \<longrightarrow>
                   q ''P90_monthly_error'' = Null)
             \<and> (filter (\<lambda>v. v \<noteq> Null) (group_values dm k) \<noteq> [] \<longrightarrow>
                   (\<exists>xs. map Num xs = filter (\<lambda>v. v \<noteq> Null) (group_values dm k)
                       \<and> q ''P90_monthly_error'' = Num (nanpercentile L xs 90)))"
    if x: "x \<in> set (rows dm)" and k: "x ''BMU'' = Str k" for x k
  proof -
    have ne: "\<not> frame_empty dm" using x assms(1) by (auto simp: frame_empty_def)
    have "x ''BMU'' \<in> (\<lambda>r. r ''BMU'') ` set (rows dm)" using x by (rule imageI)
    then have "Str k \<in> set (map (\<lambda>r. r ''BMU'') (rows dm))" by (simp add: k)
    then have mem: "k \<in> set (group_keys (map (\<lambda>r. r ''BMU'') (rows dm)))"
      by (simp add: group_keys_props(2))
    have "rows ?p = map (\<lambda>k. p90_row k (g k)) (group_keys (map (\<lambda>r. r ''BMU'') (rows dm)))"
      using ne by simp
    then have f: "filter (\<lambda>q. q ''BMU'' = Str k) (rows ?p) = [p90_row k (g k)]"
      using p90_row_lookup [OF group_keys_props(1) mem, of g] by (simp only:)
    have v: "p90_row k (g k) ''P90_monthly_error'' = g k" by (simp add: p90_row_def)
    show ?thesis
    proof (intro exI [of _ "p90_row k (g k)"] conjI)
      show "filter (\<lambda>q. q ''BMU'' = Str k) (rows ?p) = [p90_row k (g k)]" by (rule f)
      show "filter (\<lambda>v. v \<noteq> Null) (group_values dm k) = [] \<longrightarrow>
                   p90_row k (g k) ''P90_monthly_error'' = Null"
        unfolding v using gv by (rule allE) (erule conjunct1)
      show "filter (\<lambda>v. v \<noteq> Null) (group_values dm k) \<noteq> [] \<longrightarrow>
                   (\<exists>xs. map Num xs = filter (\<lambda>v. v \<noteq> Null) (group_values dm k)
                       \<and> p90_row k (g k) ''P90_monthly_error'' = Num (nanpercentile L xs 90))"
        unfolding v using gv by (rule allE) (erule conjunct2)
    qed
  qed
  then have "\<forall>x \<in> set (rows dm). \<forall>k. x ''BMU'' = Str k \<longrightarrow>
          (\<exists>q. filter (\<lambda>q. q ''BMU'' = Str k) (rows ?p) = [q]
             \<and> (filter (\<lambda>v. v \<noteq> Null) (group_values dm k) = [] \<longrightarrow>
                   q ''P90_monthly_error'' = Null)
             \<and> (filter (\<lambda>v. v \<noteq> Null) (group_values dm k) \<noteq> [] \<longrightarrow>
                   (\<exists>xs. map Num xs = filter (\<lambda>v. v \<noteq> Null) (group_values dm k)
                       \<and> q ''P90_monthly_error'' = Num (nanpercentile L xs 90))))"
    by blast
  with p show ?thesis by (intro exI [of _ ?p] conjI)
qed

lemma cmp_ge25_True: "(cmp_scalar (\<lambda>x. 25 \<le> x) v = Inr True) = (\<exists>y. v = Num y \<and> 25 \<le> y)"
  by (cases v) (auto simp: cmp_scalar_def)

lemma col_mask_values:
  assumes "col_mask c f df = Inr m"
  shows "m = map (\<lambda>r. f (r c) = Inr True) (rows df)"
proof -
  have c: "c \<in> set (columns df)" by (rule col_mask_Inr(1) [OF assms])
  have t: "traverse f (map (\<lambda>r. r c) (rows df)) = Inr m"
    using assms c by (simp add: col_mask_def getitem_def)
  show ?thesis using traverse_mask [OF t] by (simp add: comp_def)
qed

lemma map_zip_maps:
  "map h (zip xs (map k (zip (map p xs) (map q xs)))) = map (\<lambda>x. h (x, k (p x, q x))) xs"
  by (induction xs) auto

lemma enrich_flag:
  assumes "enrich_annual L da dm = Inr e"
  shows "\<forall>x \<in> set (rows e).
           x ''NeedsAttention'' =
             Bool ((\<exists>y. x ''A_ABS_NetError%'' = Num y \<and> 25 \<le> y)
                 \<or> (\<exists>y. x ''P90_monthly_error'' = Num y \<and> 25 \<le> y))"
proof -
  obtain df m1 m2 where
    m1: "col_mask ''A_ABS_NetError%'' (cmp_scalar (\<lambda>x. 25 \<le> x)) df = Inr m1"
    and m2: "col_mask ''P90_monthly_error'' (cmp_scalar (\<lambda>x. 25 \<le> x)) df = Inr m2"
    and e: "e = set_column ''NeedsAttention'' (map (\<lambda>(a, b). Bool (a \<or> b)) (zip m1 m2)) df"
    using assms unfolding enrich_annual_def
    by (auto simp: case_sum_Inr_iff split: if_splits)
  have r: "rows e = map (\<lambda>x. x(''NeedsAttention'' :=
              Bool (cmp_scalar (\<lambda>x. 25 \<le> x) (x ''A_ABS_NetError%'') = Inr True
                  \<or> cmp_scalar (\<lambda>x. 25 \<le> x) (x ''P90_monthly_error'') = Inr True))) (rows df)"
    unfolding e col_mask_values [OF m1] col_mask_values [OF m2]
    by (simp add: set_column_def map_zip_maps)
  show ?thesis unfolding r by (simp add: cmp_ge25_True)
qed

section \<open>The loaders\<close>

lemma assign_rows: "rows (assign c f df) = map (\<lambda>r. r(c := f r)) (rows df)"
  by (simp add: assign_def)

lemma length_set_column:
  "length vs = length (rows df) \<Longrightarrow> length (rows (set_column c vs df)) = length (rows df)"
  by (simp add: set_column_def)

lemma coerce_datetime_column_rows:
  "rows (coerce_datetime_column L c df) =
     map (\<lambda>i. (rows df ! i)(c := (case to_datetime L (map (\<lambda>r. r c) (rows df)) i of
                                    None \<Rightarrow> Null | Some t \<Rightarrow> Stamp t)))
       [0 ..< length (rows df)]"
proof -
  have "map (\<lambda>(r, v). r(c := v)) (zip xs (map g [0 ..< length xs]))
        = map (\<lambda>i. (xs ! i)(c := g i)) [0 ..< length xs]" for xs :: "row list" and g
    by (rule nth_equalityI) simp_all
  then show ?thesis by (simp add: coerce_datetime_column_def set_column_def Let_def)
qed

lemma transform_rows:
  "rows (transform L dfs) =
     map (derive_trade L)
       (filter (\<lambda>r. r ''HourStartLocal'' \<noteq> Null \<and> r ''Trade_Abs_MW'' \<noteq> Null
                   \<and> r ''Interconnector'' \<noteq> Null)
          (rows (coerce_datetime_column L ''HourStartLocal'' (pd_concat dfs))))"
  by (simp add: transform_def Let_def assign_rows dropna_def derive_trade_def comp_def)

lemma derive_trade_cells:
  assumes "r ''HourStartLocal'' = Stamp t"
  shows "derive_trade L r ''HourStartLocal'' = Stamp t"
    and "derive_trade L r ''Date'' = Day (dt_date t)"
    and "derive_trade L r ''Hour'' = Num (real_of_int (dt_hour t))"
    and "derive_trade L r ''Trade_Abs_MW'' = r ''Trade_Abs_MW''"
    and "derive_trade L r ''Interconnector'' = r ''Interconnector''"
  using assms by (simp_all add: derive_trade_def Let_def)

lemma coerced_row_stamp:
  assumes "r \<in> set (rows (coerce_datetime_column L c df))" and "r c \<noteq> Null"
  shows "\<exists>t. r c = Stamp t"
proof -
  obtain i where "r = (rows df ! i)(c := (case to_datetime L (map (\<lambda>r. r c) (rows df)) i of
                                    None \<Rightarrow> Null | Some t \<Rightarrow> Stamp t))"
    using assms(1) unfolding coerce_datetime_column_rows by auto
  then have "r c = (case to_datetime L (map (\<lambda>r. r c) (rows df)) i of
                                    None \<Rightarrow> Null | Some t \<Rightarrow> Stamp t)" by simp
  then show ?thesis using assms(2) by (cases "to_datetime L (map (\<lambda>r. r c) (rows df)) i") simp_all
qed

lemma transform_row:
  assumes "x \<in> set (rows (transform L dfs))"
  shows "\<exists>t. x ''HourStartLocal'' = Stamp t \<and> x ''Date'' = Day (dt_date t)
           \<and> x ''Hour'' = Num (real_of_int (dt_hour t))
           \<and> x ''Trade_Abs_MW'' \<noteq> Null \<and> x ''Interconnector'' \<noteq> Null"
proof -
  obtain r where r: "r \<in> set (rows (coerce_datetime_column L ''HourStartLocal'' (pd_concat dfs)))"
    and n: "r ''HourStartLocal'' \<noteq> Null" "r ''Trade_Abs_MW'' \<noteq> Null" "r ''Interconnector'' \<noteq> Null"
    and x: "x = derive_trade L r"
    using assms unfolding transform_rows by auto
  obtain t where t: "r ''HourStartLocal'' = Stamp t" using coerced_row_stamp [OF r n(1)] by blast
  show ?thesis using derive_trade_cells [of r t L, OF t] n(2,3) unfolding x by simp
qed

lemma pd_concat_Nil: "rows (pd_concat []) = []"
  by (simp add: pd_concat_def)

lemma transform_Nil: "rows (transform L []) = []"
  by (simp add: transform_rows coerce_datetime_column_rows pd_concat_Nil)

lemma load_rows:
  "rows (fst (load_and_transform_data L srcs)) = rows (transform L (fst (read_sources srcs)))"
  by (cases "read_sources srcs")
     (simp add: load_and_transform_data_def DataFrame_def transform_Nil)

lemma load_shown: "snd (load_and_transform_data L srcs) = snd (read_sources srcs)"
  by (cases "read_sources srcs") (simp add: load_and_transform_data_def)

lemma loaded_row:
  assumes "x \<in> set (rows (fst (load_and_transform_data L srcs)))"
  shows "\<exists>t. x ''HourStartLocal'' = Stamp t \<and> x ''Date'' = Day (dt_date t)
           \<and> x ''Hour'' = Num (real_of_int (dt_hour t))
           \<and> x ''Trade_Abs_MW'' \<noteq> Null \<and> x ''Interconnector'' \<noteq> Null"
  using assms unfolding load_rows by (rule transform_row)

lemma read_sources_skip:
  assumes "\<not> (\<forall>col \<in> set required_cols. col \<in> set (columns df))"
  shows "read_sources (pre @ Inr df # post) = read_sources (pre @ post)"
proof (induction pre)
  case Nil
  show ?case using assms by (cases "read_sources post") simp
next
  case (Cons s pre)
  show ?case
  proof (cases s)
    case (Inl e)
    then show ?thesis using Cons by simp
  next
    case (Inr d)
    then show ?thesis using Cons by simp
  qed
qed

lemma read_sources_shown:
  "snd (read_sources srcs) =
     List.map_filter (\<lambda>s. case s of Inl e \<Rightarrow> Some e | Inr df \<Rightarrow> None) srcs"
proof (induction srcs)
  case Nil
  show ?case by simp
next
  case (Cons s srcs)
  show ?case
  proof (cases s)
    case (Inl e)
    then show ?thesis using Cons by (cases "read_sources srcs") simp
  next
    case (Inr d)
    then show ?thesis using Cons by (cases "read_sources srcs") simp
  qed
qed

lemma read_sources_frames:
  "fst (read_sources srcs) =
     List.map_filter (\<lambda>s. case s of Inl e \<Rightarrow> None
        | Inr df \<Rightarrow> if \<forall>col \<in> set required_cols. col \<in> set (columns df) then Some df else None) srcs"
proof (induction srcs)
  case Nil
  show ?case by simp
next
  case (Cons s srcs)
  show ?case
  proof (cases s)
    case (Inl e)
    then show ?thesis using Cons by (cases "read_sources srcs") simp
  next
    case (Inr d)
    then show ?thesis using Cons by (cases "read_sources srcs") simp
  qed
qed

lemma hour_range: "0 \<le> dt_hour t \<and> dt_hour t < 24"
  by (simp add: dt_hour_def)

lemma nunique_card: "nunique col = card (set col - {Null})"
proof -
  have "set (filter (\<lambda>v. v \<noteq> Null) col) = set col - {Null}" by auto
  then show ?thesis by (simp add: nunique_def length_remdups_card_conv)
qed

lemma hours_at_most_24:
  assumes "\<forall>x \<in> X. \<exists>t. (x::row) ''Hour'' = Num (real_of_int (dt_hour t))"
  shows "card ((\<lambda>x. x ''Hour'') ` X) \<le> 24"
proof -
  have "(\<lambda>x. x ''Hour'') ` X \<subseteq> (\<lambda>k. Num (real_of_int k)) ` {0 ..< 24}"
  proof
    fix v assume "v \<in> (\<lambda>x. x ''Hour'') ` X"
    then obtain x where "x \<in> X" and v: "v = x ''Hour''" by blast
    then obtain t where "v = Num (real_of_int (dt_hour t))" using assms by metis
    moreover have "dt_hour t \<in> {0 ..< 24}" using hour_range [of t] by simp
    ultimately show "v \<in> (\<lambda>k. Num (real_of_int k)) ` {0 ..< 24}" by blast
  qed
  then have "card ((\<lambda>x. x ''Hour'') ` X) \<le> card ((\<lambda>k. Num (real_of_int k)) ` {0 ..< (24::int)})"
    by (intro card_mono) simp_all
  also have "\<dots> \<le> card {0 ..< (24::int)}" by (rule card_image_le) simp
  finally show ?thesis by simp
qed

lemma set_days_of: "set (days_of col) = {d. Day d \<in> set col}"
  by (induction col rule: days_of.induct) auto

lemma daily_data_rows:
  assumes "daily_data ff thr = Inr dd"
  shows "rows dd =
     map (daily_row (ff\<lparr>rows := filter (\<lambda>x. cmp_scalar (\<lambda>v. thr < v) (x ''Trade_Abs_MW'') = Inr True) (rows ff)\<rparr>))
       (sort (remdups (days_of (map (\<lambda>r. r ''Date'')
          (filter (\<lambda>x. cmp_scalar (\<lambda>v. thr < v) (x ''Trade_Abs_MW'') = Inr True) (rows ff))))))"
proof -
  obtain m where m: "col_mask ''Trade_Abs_MW'' (cmp_scalar (\<lambda>v. thr < v)) ff = Inr m"
    and r: "(case getitem (loc ff m) ''Date'' of
              Inl e \<Rightarrow> Inl e
            | Inr dates \<Rightarrow>
               (if ''Hour'' \<notin> set (columns (loc ff m)) then Inl (KeyError ''Hour'')
                else Inr \<lparr>columns = [''Date'', ''Hours Over Threshold''],
                          rows = map (daily_row (loc ff m)) (sort (remdups (days_of dates)))\<rparr>)) = Inr dd"
    using assms unfolding daily_data_def by (auto simp: case_sum_Inr_iff Let_def)
  obtain dates where d: "getitem (loc ff m) ''Date'' = Inr dates"
    and dd: "dd = \<lparr>columns = [''Date'', ''Hours Over Threshold''],
                          rows = map (daily_row (loc ff m)) (sort (remdups (days_of dates)))\<rparr>"
    using r by (auto simp: case_sum_Inr_iff split: if_splits)
  have "dates = map (\<lambda>r. r ''Date'') (rows (loc ff m))"
    using d by (auto simp: getitem_def split: if_splits)
  then show ?thesis unfolding dd col_mask_Inr(3) [OF m] by simp
qed

lemma daily_row_cells:
  "daily_row df d ''Date'' = Day d"
  "daily_row df d ''Hours Over Threshold'' =
     Num (real (nunique (map (\<lambda>r. r ''Hour'') (filter (\<lambda>r. r ''Date'' = Day d) (rows df)))))"
  by (simp_all add: daily_row_def)

lemma get_measures_count:
  assumes "get_measures ff thr = Inr (ic, nh, nd, te, av)"
  shows "ic = length (filter (\<lambda>x. cmp_scalar (\<lambda>v. thr < v) (x ''Trade_Abs_MW'') = Inr True) (rows ff))"
proof -
  obtain m where m: "col_mask ''Trade_Abs_MW'' (cmp_scalar (\<lambda>v. thr < v)) ff = Inr m"
    and r: "(case getitem (loc ff m) ''HourStartLocal'' of
             Inl e \<Rightarrow> Inl e
           | Inr hours \<Rightarrow>
               (case getitem (loc ff m) ''Date'' of
                  Inl e \<Rightarrow> Inl e
                | Inr dates \<Rightarrow>
                    Inr (length (rows (loc ff m)), nunique hours, nunique dates,
                         sum_list (map (\<lambda>r. cell_value (r ''Trade_Abs_MW'')) (rows (loc ff m))),
                         (if length (rows (loc ff m)) > 0
                          then sum_list (map (\<lambda>r. cell_value (r ''Trade_Abs_MW'')) (rows (loc ff m)))
                                 / real (length (rows (loc ff m))) else 0))))
            = Inr (ic, nh, nd, te, av)"
    using assms unfolding get_measures_def by (auto simp: case_sum_Inr_iff Let_def)
  have "ic = length (rows (loc ff m))"
    using r by (auto simp: case_sum_Inr_iff)
  then show ?thesis unfolding col_mask_Inr(3) [OF m] by simp
qed

lemma hours_over_threshold_typed:
  assumes typed: "\<forall>x \<in> set (rows ff). \<exists>t. x ''Hour'' = Num (real_of_int (dt_hour t))"
    and dd: "daily_data ff thr = Inr dd"
  shows "\<forall>q \<in> set (rows dd). \<exists>d. q ''Date'' = Day d
           \<and> q ''Hours Over Threshold'' =
               Num (real (card ((\<lambda>x. x ''Hour'') `
                  {x \<in> set (rows ff). x ''Date'' = Day d
                     \<and> cmp_scalar (\<lambda>v. thr < v) (x ''Trade_Abs_MW'') = Inr True})))
           \<and> card ((\<lambda>x. x ''Hour'') `
                  {x \<in> set (rows ff). x ''Date'' = Day d
                     \<and> cmp_scalar (\<lambda>v. thr < v) (x ''Trade_Abs_MW'') = Inr True}) \<le> 24"
proof
  fix q assume q: "q \<in> set (rows dd)"
  let ?over = "\<lambda>x. cmp_scalar (\<lambda>v. thr < v) (x ''Trade_Abs_MW'') = Inr True"
  let ?sub = "ff\<lparr>rows := filter ?over (rows ff)\<rparr>"
  obtain d where qd: "q = daily_row ?sub d"
    using q unfolding daily_data_rows [OF dd] by auto
  let ?X = "{x \<in> set (rows ff). x ''Date'' = Day d \<and> ?over x}"
  have tX: "\<forall>x \<in> ?X. \<exists>t. x ''Hour'' = Num (real_of_int (dt_hour t))"
    using typed by simp
  have s: "set (filter (\<lambda>r. r ''Date'' = Day d) (rows ?sub)) = ?X" by auto
  have nn: "Null \<notin> (\<lambda>x. x ''Hour'') ` ?X"
  proof
    assume "Null \<in> (\<lambda>x. x ''Hour'') ` ?X"
    then obtain x where "x \<in> ?X" and "x ''Hour'' = Null" by force
    then show False using tX by force
  qed
  have "nunique (map (\<lambda>r. r ''Hour'') (filter (\<lambda>r. r ''Date'' = Day d) (rows ?sub)))
        = card ((\<lambda>x. x ''Hour'') ` ?X - {Null})"
    unfolding nunique_card by (simp only: set_map s)
  also have "\<dots> = card ((\<lambda>x. x ''Hour'') ` ?X)" using nn by simp
  finally have n: "nunique (map (\<lambda>r. r ''Hour'') (filter (\<lambda>r. r ''Date'' = Day d) (rows ?sub)))
        = card ((\<lambda>x. x ''Hour'') ` ?X)" .
  have "q ''Date'' = Day d" unfolding qd by (rule daily_row_cells(1))
  moreover have "q ''Hours Over Threshold'' = Num (real (card ((\<lambda>x. x ''Hour'') ` ?X)))"
    unfolding qd daily_row_cells(2) n ..
  moreover have "card ((\<lambda>x. x ''Hour'') ` ?X) \<le> 24" by (rule hours_at_most_24 [OF tX])
  ultimately show "\<exists>d. q ''Date'' = Day d
           \<and> q ''Hours Over Threshold'' = Num (real (card ((\<lambda>x. x ''Hour'') ` {x \<in> set (rows ff). x ''Date'' = Day d \<and> ?over x})))
           \<and> card ((\<lambda>x. x ''Hour'') ` {x \<in> set (rows ff). x ''Date'' = Day d \<and> ?over x}) \<le> 24"
    by blast
qed

lemma loaded_hours:
  assumes "set (rows ff) \<subseteq> set (rows (fst (load_and_transform_data L srcs)))"
  shows "\<forall>x \<in> set (rows ff). \<exists>t. x ''Hour'' = Num (real_of_int (dt_hour t))"
proof
  fix x assume "x \<in> set (rows ff)"
  then have "x \<in> set (rows (fst (load_and_transform_data L srcs)))" using assms by blast
  from loaded_row [OF this] show "\<exists>t. x ''Hour'' = Num (real_of_int (dt_hour t))" by blast
qed

lemma filtered_loaded_hours:
  assumes "df < length h" and "h ! df = fst (load_and_transform_data L srcs)"
    and "apply_filters h df dr gs ics dm ip = Inr (h1, r1)"
  shows "\<forall>x \<in> set (rows (h1 ! r1)). \<exists>t. x ''Hour'' = Num (real_of_int (dt_hour t))"
proof (rule loaded_hours)
  have "rows (h1 ! r1) = filter (passes dr gs ics dm ip) (rows (h ! df))"
    using narrowed_frame [OF apply_filters_narrowed(1) [OF assms(3) assms(1)]] by simp
  then show "set (rows (h1 ! r1)) \<subseteq> set (rows (fst (load_and_transform_data L srcs)))"
    using assms(2) by auto
qed


lemma coerce_column_props:
  "columns (coerce_column L c df) = columns df"
  "length (rows (coerce_column L c df)) = length (rows df)"
  "i < length (rows df) \<Longrightarrow>
     (rows (coerce_column L c df) ! i) k =
       (if k = c \<and> c \<in> set (columns df) then coerce_numeric L ((rows df ! i) k)
        else (rows df ! i) k)"
  by (simp_all add: coerce_column_def assign_def)

lemma fold_coerce_props:
  "columns (fold (coerce_column L) cs df) = columns df
   \<and> length (rows (fold (coerce_column L) cs df)) = length (rows df)"
  by (induction cs arbitrary: df) (simp_all add: coerce_column_props)

lemma fold_coerce_cell:
  assumes "distinct cs" and "i < length (rows df)"
  shows "(rows (fold (coerce_column L) cs df) ! i) k =
       (if k \<in> set cs \<and> k \<in> set (columns df) then coerce_numeric L ((rows df ! i) k)
        else (rows df ! i) k)"
  using assms
proof (induction cs arbitrary: df)
  case Nil
  show ?case by simp
next
  case (Cons c cs)
  have d: "distinct cs" and n: "c \<notin> set cs" using Cons.prems(1) by simp_all
  have i: "i < length (rows (coerce_column L c df))"
    using Cons.prems(2) by (simp add: coerce_column_props)
  have "(rows (fold (coerce_column L) (c # cs) df) ! i) k =
        (rows (fold (coerce_column L) cs (coerce_column L c df)) ! i) k" by simp
  also have "\<dots> = (if k \<in> set cs \<and> k \<in> set (columns (coerce_column L c df))
        then coerce_numeric L ((rows (coerce_column L c df) ! i) k)
        else (rows (coerce_column L c df) ! i) k)"
    by (rule Cons.IH [OF d i])
  also have "\<dots> = (if k \<in> set (c # cs) \<and> k \<in> set (columns df)
        then coerce_numeric L ((rows df ! i) k) else (rows df ! i) k)"
    using n Cons.prems(2) by (auto simp: coerce_column_props)
  finally show ?case .
qed

lemma assign_props:
  "columns (assign c f df) = (if c \<in> set (columns df) then columns df else columns df @ [c])"
  "length (rows (assign c f df)) = length (rows df)"
  "i < length (rows df) \<Longrightarrow>
     (rows (assign c f df) ! i) k = (if k = c then f (rows df ! i) else (rows df ! i) k)"
  by (simp_all add: assign_def)

lemma assign_from_Inr:
  assumes "assign_from dst src f df = Inr d"
  shows "d = assign dst (\<lambda>r. f (r src)) df" and "src \<in> set (columns df)"
  using assms by (simp_all add: assign_from_def split: if_splits)

lemma distinct_num_cols: "distinct num_cols" "distinct num_cols_m"
  by (simp_all add: num_cols_def num_cols_m_def)

lemma num_cols_fresh:
  "c \<in> set num_cols \<Longrightarrow> c \<noteq> ''BMU'' \<and> c \<noteq> ''Fuel'' \<and> c \<noteq> ''Year'' \<and> c \<noteq> ''Grain''"
  by (auto simp: num_cols_def)

lemma load_annual_file_cells:
  assumes "load_annual_file L df0 = Inr d"
  shows "length (rows d) = length (rows df0)"
    and "i < length (rows df0) \<Longrightarrow> c \<in> set num_cols \<Longrightarrow>
           c \<in> set (columns (strip_columns L df0)) \<Longrightarrow>
           (rows d ! i) c = coerce_numeric L ((rows (strip_columns L df0) ! i) c)"
proof -
  define S where "S = strip_columns L df0"
  define F where "F = fold (coerce_column L) num_cols S"
  obtain d1 d2 where d1: "assign_from ''BMU'' ''nationalGridBmUnit'' (astype_str L) F = Inr d1"
    and d2: "assign_from ''Fuel'' ''FUEL_I'' (astype_str L) d1 = Inr d2"
    and d: "d = assign ''Grain'' (\<lambda>r. Str ''annual'') (assign ''Year'' (\<lambda>r. Num 2025) d2)"
    using assms unfolding load_annual_file_def Let_def S_def [symmetric] F_def [symmetric]
    by (auto simp: case_sum_Inr_iff)
  note e1 = assign_from_Inr(1) [OF d1] and e2 = assign_from_Inr(1) [OF d2]
  have lS: "length (rows S) = length (rows df0)" by (simp add: S_def strip_columns_def)
  have lF: "length (rows F) = length (rows df0)" using fold_coerce_props [of L num_cols S] lS
    by (simp add: F_def)
  show "length (rows d) = length (rows df0)"
    unfolding d e2 e1 using lF by (simp add: assign_props)
  show "(rows d ! i) c = coerce_numeric L ((rows (strip_columns L df0) ! i) c)"
    if i: "i < length (rows df0)" and c: "c \<in> set num_cols"
      and k: "c \<in> set (columns (strip_columns L df0))"
  proof -
    have "(rows d ! i) c = (rows F ! i) c"
      unfolding d e2 e1 using i lF num_cols_fresh [OF c] by (simp add: assign_props)
    also have "\<dots> = coerce_numeric L ((rows S ! i) c)"
      unfolding F_def using fold_coerce_cell [OF distinct_num_cols(1), of i S L c] i lS c k
      by (simp add: S_def)
    finally show ?thesis by (simp add: S_def)
  qed
qed

lemma num_cols_m_fresh:
  "c \<in> set num_cols_m \<Longrightarrow> c \<noteq> ''BMU'' \<and> c \<noteq> ''Fuel'' \<and> c \<noteq> ''Year'' \<and> c \<noteq> ''Grain''
     \<and> c \<noteq> ''year_month'' \<and> c \<noteq> ''year_month_fixed'' \<and> c \<noteq> ''YearMonth''
     \<and> c \<noteq> ''Month'' \<and> c \<noteq> ''MonthName''"
  by (auto simp: num_cols_m_def)

lemma derived_not_numeric:
  "''year_month_fixed'' \<notin> set num_cols_m" "''YearMonth'' \<notin> set num_cols_m"
  "''Year'' \<notin> set num_cols_m" "''Month'' \<notin> set num_cols_m" "''MonthName'' \<notin> set num_cols_m"
  by (simp_all add: num_cols_m_def)

lemma load_monthly_file_cells:
  assumes "load_monthly_file L df0 = Inr d"
  shows "length (rows d) = length (rows df0)"
    and "i < length (rows df0) \<Longrightarrow> c \<in> set num_cols_m \<Longrightarrow>
           c \<in> set (columns (strip_columns L df0)) \<Longrightarrow>
           (rows d ! i) c = coerce_numeric L ((rows (strip_columns L df0) ! i) c)"
    and "i < length (rows df0) \<Longrightarrow>
           (rows d ! i) ''YearMonth'' =
              coerce_datetime_format L ''%Y-%m'' ((rows d ! i) ''year_month_fixed'')
         \<and> (rows d ! i) ''Year'' =
              dt_field (\<lambda>t. Num (real_of_int (dt_year t))) ((rows d ! i) ''YearMonth'')
         \<and> (rows d ! i) ''Month'' =
              dt_field (\<lambda>t. Num (real_of_int (dt_month t))) ((rows d ! i) ''YearMonth'')
         \<and> (rows d ! i) ''MonthName'' =
              dt_field (\<lambda>t. Str (dt_month_name t)) ((rows d ! i) ''YearMonth'')"
proof -
  define S where "S = strip_columns L df0"
  obtain m0 where m0: "assign_from ''year_month'' ''year_month'' (astype_str L) S = Inr m0"
    and rest: "(let df = assign ''year_month_fixed''
                      (\<lambda>r. case r ''year_month'' of
                              Str s \<Rightarrow> Str (re_sub L month_pattern month_repl s)
                            | v \<Rightarrow> Null) m0;
               df = assign ''YearMonth''
                      (\<lambda>r. coerce_datetime_format L ''%Y-%m'' (r ''year_month_fixed'')) df;
               df = assign ''Year''
                      (\<lambda>r. dt_field (\<lambda>t. Num (real_of_int (dt_year t))) (r ''YearMonth'')) df;
               df = assign ''Month''
                      (\<lambda>r. dt_field (\<lambda>t. Num (real_of_int (dt_month t))) (r ''YearMonth'')) df;
               df = assign ''MonthName''
                      (\<lambda>r. dt_field (\<lambda>t. Str (dt_month_name t)) (r ''YearMonth'')) df;
               df = fold (coerce_column L) num_cols_m df
           in case assign_from ''BMU'' ''nationalGridBmUnit'' (astype_str L) df of
                Inl e \<Rightarrow> Inl e
              | Inr df \<Rightarrow>
                  (case assign_from ''Fuel'' ''FUEL_I'' (astype_str L) df of
                     Inl e \<Rightarrow> Inl e
                   | Inr df \<Rightarrow> Inr (assign ''Grain'' (\<lambda>r. Str ''monthly'') df))) = Inr d"
    using assms unfolding load_monthly_file_def S_def [symmetric]
    by (auto simp: case_sum_Inr_iff)
  define M where "M = assign ''MonthName''
      (\<lambda>r. dt_field (\<lambda>t. Str (dt_month_name t)) (r ''YearMonth''))
      (assign ''Month'' (\<lambda>r. dt_field (\<lambda>t. Num (real_of_int (dt_month t))) (r ''YearMonth''))
      (assign ''Year'' (\<lambda>r. dt_field (\<lambda>t. Num (real_of_int (dt_year t))) (r ''YearMonth''))
      (assign ''YearMonth'' (\<lambda>r. coerce_datetime_format L ''%Y-%m'' (r ''year_month_fixed''))
      (assign ''year_month_fixed''
         (\<lambda>r. case r ''year_month'' of Str s \<Rightarrow> Str (re_sub L month_pattern month_repl s)
               | v \<Rightarrow> Null) m0))))"
  define F where "F = fold (coerce_column L) num_cols_m M"
  obtain d1 d2 where d1: "assign_from ''BMU'' ''nationalGridBmUnit'' (astype_str L) F = Inr d1"
    and d2: "assign_from ''Fuel'' ''FUEL_I'' (astype_str L) d1 = Inr d2"
    and d: "d = assign ''Grain'' (\<lambda>r. Str ''monthly'') d2"
    using rest unfolding Let_def M_def [symmetric] F_def [symmetric]
    by (auto simp: case_sum_Inr_iff)
  note e0 = assign_from_Inr(1) [OF m0]
  note e1 = assign_from_Inr(1) [OF d1] and e2 = assign_from_Inr(1) [OF d2]
  have lS: "length (rows S) = length (rows df0)" by (simp add: S_def strip_columns_def)
  have lM: "length (rows M) = length (rows df0)"
    unfolding M_def e0 using lS by (simp add: assign_props)
  have lF: "length (rows F) = length (rows df0)" using fold_coerce_props [of L num_cols_m M] lM
    by (simp add: F_def)
  show "length (rows d) = length (rows df0)"
    unfolding d e2 e1 using lF by (simp add: assign_props)
  have cS: "set (columns S) \<subseteq> set (columns M)"
    unfolding M_def e0 by (auto simp: assign_props)
  have Fcell: "(rows F ! i) k =
       (if k \<in> set num_cols_m \<and> k \<in> set (columns M) then coerce_numeric L ((rows M ! i) k)
        else (rows M ! i) k)" if "i < length (rows df0)" for k
    unfolding F_def using fold_coerce_cell [OF distinct_num_cols(2), of i M L k] that lM by simp
  have dF: "(rows d ! i) k = (rows F ! i) k"
    if "i < length (rows df0)" "k \<noteq> ''BMU''" "k \<noteq> ''Fuel''" "k \<noteq> ''Grain''" for k
    unfolding d e2 e1 using that lF by (simp add: assign_props)
  show "(rows d ! i) c = coerce_numeric L ((rows (strip_columns L df0) ! i) c)"
    if i: "i < length (rows df0)" and c: "c \<in> set num_cols_m"
      and k: "c \<in> set (columns (strip_columns L df0))"
  proof -
    note fr = num_cols_m_fresh [OF c]
    have "(rows d ! i) c = (rows F ! i) c" using dF [OF i] fr by simp
    also have "\<dots> = coerce_numeric L ((rows M ! i) c)"
      using Fcell [OF i, of c] c k cS by (auto simp: S_def)
    also have "(rows M ! i) c = (rows S ! i) c"
      unfolding M_def e0 using i lS fr by (simp add: assign_props)
    finally show ?thesis by (simp add: S_def)
  qed
  show "(rows d ! i) ''YearMonth'' =
              coerce_datetime_format L ''%Y-%m'' ((rows d ! i) ''year_month_fixed'')
         \<and> (rows d ! i) ''Year'' =
              dt_field (\<lambda>t. Num (real_of_int (dt_year t))) ((rows d ! i) ''YearMonth'')
         \<and> (rows d ! i) ''Month'' =
              dt_field (\<lambda>t. Num (real_of_int (dt_month t))) ((rows d ! i) ''YearMonth'')
         \<and> (rows d ! i) ''MonthName'' =
              dt_field (\<lambda>t. Str (dt_month_name t)) ((rows d ! i) ''YearMonth'')"
    if i: "i < length (rows df0)"
  proof -
    have a: "(rows d ! i) k = (rows M ! i) k"
      if "k \<in> {''year_month_fixed'', ''YearMonth'', ''Year'', ''Month'', ''MonthName''}" for k
    proof -
      have "k \<notin> set num_cols_m" using that derived_not_numeric by auto
      moreover have "k \<noteq> ''BMU'' \<and> k \<noteq> ''Fuel'' \<and> k \<noteq> ''Grain''" using that by auto
      ultimately show ?thesis using dF [OF i, of k] Fcell [OF i, of k] by simp
    qed
    have b: "(rows M ! i) ''YearMonth'' =
              coerce_datetime_format L ''%Y-%m'' ((rows M ! i) ''year_month_fixed'')
         \<and> (rows M ! i) ''Year'' =
              dt_field (\<lambda>t. Num (real_of_int (dt_year t))) ((rows M ! i) ''YearMonth'')
         \<and> (rows M ! i) ''Month'' =
              dt_field (\<lambda>t. Num (real_of_int (dt_month t))) ((rows M ! i) ''YearMonth'')
         \<and> (rows M ! i) ''MonthName'' =
              dt_field (\<lambda>t. Str (dt_month_name t)) ((rows M ! i) ''YearMonth'')"
      unfolding M_def e0 using i lS by (simp add: assign_props)
    show ?thesis using b a by simp
  qed
qed

lemma load_files_counts:
  assumes "load_files body srcs = Inr dfs"
    and "\<And>f d. body f = Inr d \<Longrightarrow> length (rows d) = length (rows f)"
  shows "sum_list (map (\<lambda>d. length (rows d)) dfs) =
         sum_list (map (\<lambda>s. case s of Inl e \<Rightarrow> 0 | Inr f \<Rightarrow> length (rows f)) srcs)"
  using assms(1)
proof (induction srcs arbitrary: dfs)
  case Nil
  then show ?case by simp
next
  case (Cons s fs)
  show ?case
  proof (cases s)
    case (Inl e)
    then show ?thesis using Cons.prems by simp
  next
    case (Inr df0)
    obtain d ds where b: "body df0 = Inr d" and r: "load_files body fs = Inr ds"
      and dfs: "dfs = d # ds"
      using Cons.prems unfolding Inr by (auto simp: case_sum_Inr_iff)
    have "sum_list (map (\<lambda>d. length (rows d)) ds) =
           sum_list (map (\<lambda>s. case s of Inl e \<Rightarrow> 0 | Inr f \<Rightarrow> length (rows f)) fs)"
      by (rule Cons.IH [OF r])
    then show ?thesis using assms(2) [OF b] by (simp add: dfs Inr)
  qed
qed

lemma pd_concat_length:
  "length (rows (pd_concat dfs)) = sum_list (map (\<lambda>d. length (rows d)) dfs)"
  by (simp add: pd_concat_def length_concat comp_def)

lemma load_accuracy_data_counts:
  assumes "load_accuracy_data L annual_files monthly_files = Inr (da, dm)"
  shows "length (rows da) =
           sum_list (map (\<lambda>s. case s of Inl e \<Rightarrow> 0 | Inr f \<Rightarrow> length (rows f)) annual_files)"
    and "length (rows dm) =
           sum_list (map (\<lambda>s. case s of Inl e \<Rightarrow> 0 | Inr f \<Rightarrow> length (rows f)) monthly_files)"
proof -
  obtain adfs mdfs where a: "load_files (load_annual_file L) annual_files = Inr adfs"
    and m: "load_files (load_monthly_file L) monthly_files = Inr mdfs"
    and da: "da = (if adfs = [] then DataFrame else pd_concat adfs)"
    and dm: "dm = (if mdfs = [] then DataFrame else pd_concat mdfs)"
    using assms unfolding load_accuracy_data_def by (auto simp: case_sum_Inr_iff)
  have "length (rows da) = sum_list (map (\<lambda>d. length (rows d)) adfs)"
    unfolding da by (simp add: DataFrame_def pd_concat_length)
  then show "length (rows da) =
           sum_list (map (\<lambda>s. case s of Inl e \<Rightarrow> 0 | Inr f \<Rightarrow> length (rows f)) annual_files)"
    using load_files_counts [OF a load_annual_file_cells(1)] by simp
  have "length (rows dm) = sum_list (map (\<lambda>d. length (rows d)) mdfs)"
    unfolding dm by (simp add: DataFrame_def pd_concat_length)
  then show "length (rows dm) =
           sum_list (map (\<lambda>s. case s of Inl e \<Rightarrow> 0 | Inr f \<Rightarrow> length (rows f)) monthly_files)"
    using load_files_counts [OF m load_monthly_file_cells(1)] by simp
qed

lemma transform_length:
  "length (rows (transform L dfs)) =
     length (filter (kept L (pd_concat dfs)) [0 ..< length (rows (pd_concat dfs))])"
proof -
  let ?C = "pd_concat dfs"
  let ?g = "\<lambda>i. (rows ?C ! i)(''HourStartLocal'' :=
              (case to_datetime L (map (\<lambda>r. r ''HourStartLocal'') (rows ?C)) i of
                 None \<Rightarrow> Null | Some t \<Rightarrow> Stamp t))"
  let ?P = "\<lambda>r::row. r ''HourStartLocal'' \<noteq> Null \<and> r ''Trade_Abs_MW'' \<noteq> Null
                   \<and> r ''Interconnector'' \<noteq> Null"
  have k: "?P (?g i) = kept L ?C i" for i
    by (cases "to_datetime L (map (\<lambda>r. r ''HourStartLocal'') (rows ?C)) i")
       (simp_all add: kept_def)
  have "length (rows (transform L dfs)) = length (filter ?P (map ?g [0 ..< length (rows ?C)]))"
    unfolding transform_rows coerce_datetime_column_rows by simp
  also have "\<dots> = length (filter (\<lambda>i. ?P (?g i)) [0 ..< length (rows ?C)])"
    by (simp add: filter_map comp_def)
  finally show ?thesis unfolding k .
qed

lemma load_empty_iff:
  "(rows (fst (load_and_transform_data L srcs)) = []) =
     (\<forall>i < length (rows (pd_concat (fst (read_sources srcs)))).
         \<not> kept L (pd_concat (fst (read_sources srcs))) i)"
proof -
  have "(rows (fst (load_and_transform_data L srcs)) = []) =
        (length (rows (transform L (fst (read_sources srcs)))) = 0)"
    unfolding load_rows by simp
  also have "\<dots> = (\<forall>i < length (rows (pd_concat (fst (read_sources srcs)))).
         \<not> kept L (pd_concat (fst (read_sources srcs))) i)"
    unfolding transform_length by (auto simp: filter_empty_conv)
  finally show ?thesis .
qed

lemma load_skip:
  assumes "\<not> (\<forall>col \<in> set required_cols. col \<in> set (columns df))"
  shows "load_and_transform_data L (pre @ Inr df # post) = load_and_transform_data L (pre @ post)"
  by (simp add: load_and_transform_data_def read_sources_skip [OF assms])

section \<open>Loading\<close>

text \<open>
  C1, as the code has it. The claim as stated fails on the trading loader: a row whose
  \<open>HourStartLocal\<close> is no date is dropped there, not kept with a null.
\<close>

theorem trading_loader_drops_failed_dates:
  "length (rows sample_trades_source) = 2
   \<and> map (\<lambda>r. r ''HourStartLocal'') (rows sample_trades_source)
       = [Str ''2025-01-01 05:00:00'', Str ''not a date'']
   \<and> to_datetime sample_lib (map (\<lambda>r. r ''HourStartLocal'') (rows sample_trades_source)) 1 = None
   \<and> map (\<lambda>r. (r ''HourStartLocal'', r ''Interconnector''))
        (rows (fst (load_and_transform_data sample_lib [Inr sample_trades_source])))
       = [(Stamp 1735707600000000000, Str ''IFA1'')]"
  by code_simp

text \<open>
  C1, amended. In the accuracy loader every source row is kept: each file keeps its row
  count, the two tables have as many rows as their sources together, a whitelisted
  numeric cell is what \<open>to_numeric\<close> reads from it and null where it reads nothing, and a
  period that is no month gives a null \<open>YearMonth\<close> and null \<open>Year\<close>, \<open>Month\<close> and
  \<open>MonthName\<close>. In the trading loader no numeric coercion is applied, and a row is kept
  exactly when its \<open>HourStartLocal\<close> is read as a date and its \<open>Trade_Abs_MW\<close> and
  \<open>Interconnector\<close> are not null: every row of the result has a timestamp, and the result
  has as many rows as there are such positions in the concatenated sources.
\<close>

theorem coercion_failure_policy:
  "(load_annual_file L df0 = Inr d \<longrightarrow>
      length (rows d) = length (rows df0)
      \<and> (\<forall>i < length (rows df0). \<forall>c \<in> set num_cols.
            c \<in> set (columns (strip_columns L df0)) \<longrightarrow>
            (rows d ! i) c =
              (case to_numeric L ((rows (strip_columns L df0) ! i) c) of
                 None \<Rightarrow> Null | Some y \<Rightarrow> Num y)))
   \<and> (load_monthly_file L mf0 = Inr m \<longrightarrow>
      length (rows m) = length (rows mf0)
      \<and> (\<forall>i < length (rows mf0).
            (\<forall>c \<in> set num_cols_m.
               c \<in> set (columns (strip_columns L mf0)) \<longrightarrow>
               (rows m ! i) c =
                 (case to_numeric L ((rows (strip_columns L mf0) ! i) c) of
                    None \<Rightarrow> Null | Some y \<Rightarrow> Num y))
            \<and> (rows m ! i) ''YearMonth'' =
                 (case to_datetime_format L ''%Y-%m'' ((rows m ! i) ''year_month_fixed'') of
                    None \<Rightarrow> Null | Some t \<Rightarrow> Stamp t)
            \<and> ((rows m ! i) ''YearMonth'' = Null \<longrightarrow>
                 (rows m ! i) ''Year'' = Null \<and> (rows m ! i) ''Month'' = Null
                 \<and> (rows m ! i) ''MonthName'' = Null)))
   \<and> (load_accuracy_data L annual_files monthly_files = Inr (da, dm) \<longrightarrow>
      length (rows da) =
        sum_list (map (\<lambda>s. case s of Inl e \<Rightarrow> 0 | Inr f \<Rightarrow> length (rows f)) annual_files)
      \<and> length (rows dm) =
        sum_list (map (\<lambda>s. case s of Inl e \<Rightarrow> 0 | Inr f \<Rightarrow> length (rows f)) monthly_files))
   \<and> (\<forall>x \<in> set (rows (fst (load_and_transform_data L srcs))).
         \<exists>t. x ''HourStartLocal'' = Stamp t
            \<and> x ''Trade_Abs_MW'' \<noteq> Null \<and> x ''Interconnector'' \<noteq> Null)
   \<and> length (rows (fst (load_and_transform_data L srcs))) =
       length (filter (kept L (pd_concat (fst (read_sources srcs))))
                 [0 ..< length (rows (pd_concat (fst (read_sources srcs))))])"
proof (intro conjI)
  show "load_annual_file L df0 = Inr d \<longrightarrow>
      length (rows d) = length (rows df0)
      \<and> (\<forall>i < length (rows df0). \<forall>c \<in> set num_cols.
            c \<in> set (columns (strip_columns L df0)) \<longrightarrow>
            (rows d ! i) c =
              (case to_numeric L ((rows (strip_columns L df0) ! i) c) of
                 None \<Rightarrow> Null | Some y \<Rightarrow> Num y))"
    using load_annual_file_cells [of L df0 d] by (simp add: coerce_numeric_def)
  show "load_monthly_file L mf0 = Inr m \<longrightarrow>
      length (rows m) = length (rows mf0)
      \<and> (\<forall>i < length (rows mf0).
            (\<forall>c \<in> set num_cols_m.
               c \<in> set (columns (strip_columns L mf0)) \<longrightarrow>
               (rows m ! i) c =
                 (case to_numeric L ((rows (strip_columns L mf0) ! i) c) of
                    None \<Rightarrow> Null | Some y \<Rightarrow> Num y))
            \<and> (rows m ! i) ''YearMonth'' =
                 (case to_datetime_format L ''%Y-%m'' ((rows m ! i) ''year_month_fixed'') of
                    None \<Rightarrow> Null | Some t \<Rightarrow> Stamp t)
            \<and> ((rows m ! i) ''YearMonth'' = Null \<longrightarrow>
                 (rows m ! i) ''Year'' = Null \<and> (rows m ! i) ''Month'' = Null
                 \<and> (rows m ! i) ''MonthName'' = Null))"
  proof
    assume lm: "load_monthly_file L mf0 = Inr m"
    have "(\<forall>c \<in> set num_cols_m.
               c \<in> set (columns (strip_columns L mf0)) \<longrightarrow>
               (rows m ! i) c =
                 (case to_numeric L ((rows (strip_columns L mf0) ! i) c) of
                    None \<Rightarrow> Null | Some y \<Rightarrow> Num y))
            \<and> (rows m ! i) ''YearMonth'' =
                 (case to_datetime_format L ''%Y-%m'' ((rows m ! i) ''year_month_fixed'') of
                    None \<Rightarrow> Null | Some t \<Rightarrow> Stamp t)
            \<and> ((rows m ! i) ''YearMonth'' = Null \<longrightarrow>
                 (rows m ! i) ''Year'' = Null \<and> (rows m ! i) ''Month'' = Null
                 \<and> (rows m ! i) ''MonthName'' = Null)" if i: "i < length (rows mf0)" for i
      using load_monthly_file_cells(2) [OF lm i] load_monthly_file_cells(3) [OF lm i]
      by (simp add: coerce_numeric_def coerce_datetime_format_def)
    then show "length (rows m) = length (rows mf0)
      \<and> (\<forall>i < length (rows mf0).
            (\<forall>c \<in> set num_cols_m.
               c \<in> set (columns (strip_columns L mf0)) \<longrightarrow>
               (rows m ! i) c =
                 (case to_numeric L ((rows (strip_columns L mf0) ! i) c) of
                    None \<Rightarrow> Null | Some y \<Rightarrow> Num y))
            \<and> (rows m ! i) ''YearMonth'' =
                 (case to_datetime_format L ''%Y-%m'' ((rows m ! i) ''year_month_fixed'') of
                    None \<Rightarrow> Null | Some t \<Rightarrow> Stamp t)
            \<and> ((rows m ! i) ''YearMonth'' = Null \<longrightarrow>
                 (rows m ! i) ''Year'' = Null \<and> (rows m ! i) ''Month'' = Null
                 \<and> (rows m ! i) ''MonthName'' = Null))"
      using load_monthly_file_cells(1) [OF lm] by blast
  qed
  show "load_accuracy_data L annual_files monthly_files = Inr (da, dm) \<longrightarrow>
      length (rows da) =
        sum_list (map (\<lambda>s. case s of Inl e \<Rightarrow> 0 | Inr f \<Rightarrow> length (rows f)) annual_files)
      \<and> length (rows dm) =
        sum_list (map (\<lambda>s. case s of Inl e \<Rightarrow> 0 | Inr f \<Rightarrow> length (rows f)) monthly_files)"
    using load_accuracy_data_counts [of L annual_files monthly_files da dm] by blast
  show "\<forall>x \<in> set (rows (fst (load_and_transform_data L srcs))).
         \<exists>t. x ''HourStartLocal'' = Stamp t
            \<and> x ''Trade_Abs_MW'' \<noteq> Null \<and> x ''Interconnector'' \<noteq> Null"
  proof
    fix x assume "x \<in> set (rows (fst (load_and_transform_data L srcs)))"
    from loaded_row [OF this] show "\<exists>t. x ''HourStartLocal'' = Stamp t
            \<and> x ''Trade_Abs_MW'' \<noteq> Null \<and> x ''Interconnector'' \<noteq> Null" by blast
  qed
  show "length (rows (fst (load_and_transform_data L srcs))) =
       length (filter (kept L (pd_concat (fst (read_sources srcs))))
                 [0 ..< length (rows (pd_concat (fst (read_sources srcs))))])"
    unfolding load_rows by (rule transform_length)
qed


theorem coercion_failure_policy_witness:
  "\<exists>d m.
      load_annual_file sample_lib sample_annual_source = Inr d
    \<and> length (rows sample_annual_source) = 2
    \<and> length (rows d) = 2
    \<and> (rows (strip_columns sample_lib sample_annual_source) ! 1) ''A_ABS_NetError%'' = Str ''n/a''
    \<and> to_numeric sample_lib (Str ''n/a'') = None
    \<and> (rows d ! 1) ''A_ABS_NetError%'' = Null
    \<and> (rows d ! 0) ''A_ABS_NetError%'' = Num 24
    \<and> load_monthly_file sample_lib sample_monthly_source = Inr m
    \<and> length (rows m) = 1
    \<and> (rows m ! 0) ''year_month_fixed'' = Str ''2025-13''
    \<and> (rows m ! 0) ''YearMonth'' = Null
    \<and> (rows m ! 0) ''Year'' = Null
    \<and> length (rows (fst (load_and_transform_data sample_lib [Inr sample_trades_source]))) = 1"
proof -
  have ea: "(case load_annual_file sample_lib sample_annual_source of
               Inl e \<Rightarrow> False | Inr d \<Rightarrow> True)"
    by code_simp
  then obtain d where d: "load_annual_file sample_lib sample_annual_source = Inr d"
    by (cases "load_annual_file sample_lib sample_annual_source") simp_all
  have em: "(case load_monthly_file sample_lib sample_monthly_source of
               Inl e \<Rightarrow> None | Inr m \<Rightarrow> Some ((rows m ! 0) ''year_month_fixed''))
            = Some (Str ''2025-13'')"
    by code_simp
  then obtain m where m: "load_monthly_file sample_lib sample_monthly_source = Inr m"
    and ymf: "(rows m ! 0) ''year_month_fixed'' = Str ''2025-13''"
    by (cases "load_monthly_file sample_lib sample_monthly_source") simp_all
  note t = coercion_failure_policy [of sample_lib sample_annual_source d sample_monthly_source m
      "[]" "[]" DataFrame DataFrame "[Inr sample_trades_source]"]
  have la: "length (rows sample_annual_source) = 2"
    and lm: "length (rows sample_monthly_source) = 1"
    by (simp_all add: sample_annual_source_def sample_monthly_source_def)
  have col: "''A_ABS_NetError%'' \<in> set num_cols"
    "''A_ABS_NetError%'' \<in> set (columns (strip_columns sample_lib sample_annual_source))"
    by code_simp+
  have c1: "(rows (strip_columns sample_lib sample_annual_source) ! 1) ''A_ABS_NetError%'' = Str ''n/a''"
    and c0: "(rows (strip_columns sample_lib sample_annual_source) ! 0) ''A_ABS_NetError%'' = Str ''24''"
    by code_simp+
  have n1: "to_numeric sample_lib (Str ''n/a'') = None"
    and n0: "to_numeric sample_lib (Str ''24'') = Some 24"
    by code_simp+
  have ld: "length (rows d) = 2" using t d la by simp
  have cells: "\<forall>i < length (rows sample_annual_source). \<forall>c \<in> set num_cols.
            c \<in> set (columns (strip_columns sample_lib sample_annual_source)) \<longrightarrow>
            (rows d ! i) c =
              (case to_numeric sample_lib ((rows (strip_columns sample_lib sample_annual_source) ! i) c) of
                 None \<Rightarrow> Null | Some y \<Rightarrow> Num y)"
    using t d by blast
  have d1: "(rows d ! 1) ''A_ABS_NetError%'' = Null"
    using cells [rule_format, of 1 "''A_ABS_NetError%''"] col la c1 n1 by simp
  have d0: "(rows d ! 0) ''A_ABS_NetError%'' = Num 24"
    using cells [rule_format, of 0 "''A_ABS_NetError%''"] col la c0 n0 by simp
  have mm: "length (rows m) = length (rows sample_monthly_source)
      \<and> (\<forall>i < length (rows sample_monthly_source).
            (\<forall>c \<in> set num_cols_m.
               c \<in> set (columns (strip_columns sample_lib sample_monthly_source)) \<longrightarrow>
               (rows m ! i) c =
                 (case to_numeric sample_lib ((rows (strip_columns sample_lib sample_monthly_source) ! i) c) of
                    None \<Rightarrow> Null | Some y \<Rightarrow> Num y))
            \<and> (rows m ! i) ''YearMonth'' =
                 (case to_datetime_format sample_lib ''%Y-%m'' ((rows m ! i) ''year_month_fixed'') of
                    None \<Rightarrow> Null | Some t \<Rightarrow> Stamp t)
            \<and> ((rows m ! i) ''YearMonth'' = Null \<longrightarrow>
                 (rows m ! i) ''Year'' = Null \<and> (rows m ! i) ''Month'' = Null
                 \<and> (rows m ! i) ''MonthName'' = Null))"
    using t m by blast
  have lmm: "length (rows m) = 1" using mm lm by simp
  have pf: "to_datetime_format sample_lib ''%Y-%m'' (Str ''2025-13'') = None"
    by code_simp
  have ym: "(rows m ! 0) ''YearMonth'' = Null"
    using mm [THEN conjunct2, rule_format, of 0] lm ymf pf by simp
  have yr: "(rows m ! 0) ''Year'' = Null"
    using mm [THEN conjunct2, rule_format, of 0] lm ym by simp
  have k: "length (filter (kept sample_lib (pd_concat (fst (read_sources [Inr sample_trades_source]))))
                 [0 ..< length (rows (pd_concat (fst (read_sources [Inr sample_trades_source]))))]) = 1"
    by code_simp
  have tr: "length (rows (fst (load_and_transform_data sample_lib [Inr sample_trades_source]))) = 1"
    using t k by simp
  show ?thesis
    by (intro exI [of _ d] exI [of _ m] conjI d la ld c1 n1 d1 d0 m lmm ymf ym yr tr)
qed

text \<open>
  C7. A source without all required columns contributes nothing, wherever it stands in
  the list: the result, rows and messages, is that of the list without it. The messages
  are exactly the exceptions of the sources that could not be read, in order, and the
  frames ingested are the readable sources with all required columns, in order. With no
  such source the result is the empty frame \<open>pd.DataFrame()\<close>; the result has no rows
  exactly when no position of the concatenated sources is kept. The loader is a total
  function: it returns a frame and the messages for every list of sources.
\<close>

theorem incomplete_sources_skipped:
  "(\<not> (\<forall>col \<in> set required_cols. col \<in> set (columns df)) \<longrightarrow>
      load_and_transform_data L (pre @ Inr df # post) = load_and_transform_data L (pre @ post))
   \<and> snd (load_and_transform_data L srcs) =
       List.map_filter (\<lambda>s. case s of Inl e \<Rightarrow> Some e | Inr df \<Rightarrow> None) srcs
   \<and> fst (read_sources srcs) =
       List.map_filter (\<lambda>s. case s of Inl e \<Rightarrow> None
          | Inr df \<Rightarrow> if \<forall>col \<in> set required_cols. col \<in> set (columns df) then Some df else None) srcs
   \<and> (fst (read_sources srcs) = [] \<longrightarrow> fst (load_and_transform_data L srcs) = DataFrame)
   \<and> (rows (fst (load_and_transform_data L srcs)) = []) =
       (\<forall>i < length (rows (pd_concat (fst (read_sources srcs)))).
           \<not> kept L (pd_concat (fst (read_sources srcs))) i)"
proof (intro conjI)
  show "\<not> (\<forall>col \<in> set required_cols. col \<in> set (columns df)) \<longrightarrow>
      load_and_transform_data L (pre @ Inr df # post) = load_and_transform_data L (pre @ post)"
    using load_skip by blast
  show "snd (load_and_transform_data L srcs) =
       List.map_filter (\<lambda>s. case s of Inl e \<Rightarrow> Some e | Inr df \<Rightarrow> None) srcs"
    unfolding load_shown by (rule read_sources_shown)
  show "fst (read_sources srcs) =
       List.map_filter (\<lambda>s. case s of Inl e \<Rightarrow> None
          | Inr df \<Rightarrow> if \<forall>col \<in> set required_cols. col \<in> set (columns df) then Some df else None) srcs"
    by (rule read_sources_frames)
  show "fst (read_sources srcs) = [] \<longrightarrow> fst (load_and_transform_data L srcs) = DataFrame"
    by (cases "read_sources srcs") (simp add: load_and_transform_data_def)
  show "(rows (fst (load_and_transform_data L srcs)) = []) =
       (\<forall>i < length (rows (pd_concat (fst (read_sources srcs)))).
           \<not> kept L (pd_concat (fst (read_sources srcs))) i)"
    by (rule load_empty_iff)
qed

theorem incomplete_sources_skipped_witness:
  "load_and_transform_data sample_lib
      [Inr sample_incomplete_source, Inl (ReadError ''missing.csv''), Inr sample_trades_source]
    = load_and_transform_data sample_lib
      [Inl (ReadError ''missing.csv''), Inr sample_trades_source]
   \<and> snd (load_and_transform_data sample_lib
      [Inr sample_incomplete_source, Inl (ReadError ''missing.csv''), Inr sample_trades_source])
    = [ReadError ''missing.csv'']
   \<and> length (rows sample_incomplete_source) = 1
   \<and> fst (load_and_transform_data sample_lib [Inr sample_incomplete_source]) = DataFrame
   \<and> rows (fst (load_and_transform_data sample_lib [Inr sample_incomplete_source])) = []"
proof -
  have miss: "\<not> (\<forall>col \<in> set required_cols. col \<in> set (columns sample_incomplete_source))"
    by (simp add: required_cols_def sample_incomplete_source_def)
  note t = incomplete_sources_skipped [of sample_incomplete_source sample_lib "[]"
      "[Inl (ReadError ''missing.csv''), Inr sample_trades_source]"
      "[Inr sample_incomplete_source, Inl (ReadError ''missing.csv''), Inr sample_trades_source]"]
  have a: "load_and_transform_data sample_lib
      [Inr sample_incomplete_source, Inl (ReadError ''missing.csv''), Inr sample_trades_source]
    = load_and_transform_data sample_lib
      [Inl (ReadError ''missing.csv''), Inr sample_trades_source]"
    using t miss by simp
  have b: "snd (load_and_transform_data sample_lib
      [Inr sample_incomplete_source, Inl (ReadError ''missing.csv''), Inr sample_trades_source])
    = [ReadError ''missing.csv'']"
    using t by (simp add: List.map_filter_simps)
  have c: "length (rows sample_incomplete_source) = 1"
    by (simp add: sample_incomplete_source_def)
  have r: "fst (read_sources [Inr sample_incomplete_source]) = []"
    using miss by simp
  note u = incomplete_sources_skipped [of sample_incomplete_source sample_lib "[]" "[]"
      "[Inr sample_incomplete_source]"]
  have d: "fst (load_and_transform_data sample_lib [Inr sample_incomplete_source]) = DataFrame"
    using u r by simp
  have e: "rows (fst (load_and_transform_data sample_lib [Inr sample_incomplete_source])) = []"
    unfolding d by (simp add: DataFrame_def)
  show ?thesis by (intro conjI a b c d e)
qed


section \<open>Enrichment\<close>

text \<open>
  C3. On a monthly table whose measurement column holds numbers and nulls, as
  \<open>to_numeric\<close> leaves it, the percentile table is defined and has exactly one row for
  every entity of the table; its value is null when all values of the entity are null,
  and otherwise the 90th percentile of the entity's values that are not null, in row
  order. For the values 10, 20, 30, 40, 50 and a null this is the percentile of
  10, 20, 30, 40, 50, which is 46 by linear interpolation.
\<close>

theorem monthly_p90_over_non_null:
  assumes "''BMU'' \<in> set (columns dm)" and "''M_ABS_NetError%'' \<in> set (columns dm)"
    and "\<forall>x \<in> set (rows dm). x ''M_ABS_NetError%'' = Null \<or> (\<exists>v. x ''M_ABS_NetError%'' = Num v)"
  shows "\<exists>p. df_monthly_p90 L dm = Inr p
     \<and> (\<forall>x \<in> set (rows dm). \<forall>k. x ''BMU'' = Str k \<longrightarrow>
          (\<exists>q. filter (\<lambda>q. q ''BMU'' = Str k) (rows p) = [q]
             \<and> (filter (\<lambda>v. v \<noteq> Null) (group_values dm k) = [] \<longrightarrow>
                   q ''P90_monthly_error'' = Null)
             \<and> (filter (\<lambda>v. v \<noteq> Null) (group_values dm k) \<noteq> [] \<longrightarrow>
                   (\<exists>xs. map Num xs = filter (\<lambda>v. v \<noteq> Null) (group_values dm k)
                       \<and> q ''P90_monthly_error'' = Num (nanpercentile L xs 90)))))"
  by (rule monthly_p90_S [OF assms])

theorem monthly_p90_over_non_null_witness:
  "\<exists>p q1 q2. df_monthly_p90 sample_lib sample_monthly = Inr p
     \<and> group_values sample_monthly ''E1'' = [Num 10, Num 20, Num 30, Num 40, Num 50, Null]
     \<and> filter (\<lambda>q. q ''BMU'' = Str ''E1'') (rows p) = [q1]
     \<and> q1 ''P90_monthly_error'' = Num (percentile_linear [10, 20, 30, 40, 50] 90)
     \<and> percentile_linear [10, 20, 30, 40, 50] 90 = 46
     \<and> group_values sample_monthly ''E2'' = [Null, Null]
     \<and> filter (\<lambda>q. q ''BMU'' = Str ''E2'') (rows p) = [q2]
     \<and> q2 ''P90_monthly_error'' = Null"
proof -
  have h: "''BMU'' \<in> set (columns sample_monthly)"
    "''M_ABS_NetError%'' \<in> set (columns sample_monthly)"
    "\<forall>x \<in> set (rows sample_monthly).
        x ''M_ABS_NetError%'' = Null \<or> (\<exists>v. x ''M_ABS_NetError%'' = Num v)"
    by (simp_all add: sample_monthly_def monthly_row_def)
  from monthly_p90_over_non_null [OF h, of sample_lib] obtain p where
    p: "df_monthly_p90 sample_lib sample_monthly = Inr p"
    and a: "\<forall>x \<in> set (rows sample_monthly). \<forall>k. x ''BMU'' = Str k \<longrightarrow>
          (\<exists>q. filter (\<lambda>q. q ''BMU'' = Str k) (rows p) = [q]
             \<and> (filter (\<lambda>v. v \<noteq> Null) (group_values sample_monthly k) = [] \<longrightarrow>
                   q ''P90_monthly_error'' = Null)
             \<and> (filter (\<lambda>v. v \<noteq> Null) (group_values sample_monthly k) \<noteq> [] \<longrightarrow>
                   (\<exists>xs. map Num xs = filter (\<lambda>v. v \<noteq> Null) (group_values sample_monthly k)
                       \<and> q ''P90_monthly_error'' = Num (nanpercentile sample_lib xs 90))))"
    by blast
  have g1: "group_values sample_monthly ''E1'' = [Num 10, Num 20, Num 30, Num 40, Num 50, Null]"
    by (simp add: group_values_def sample_monthly_def monthly_row_def)
  have g2: "group_values sample_monthly ''E2'' = [Null, Null]"
    by (simp add: group_values_def sample_monthly_def monthly_row_def)
  have x1: "monthly_row ''E1'' (Num 10) \<in> set (rows sample_monthly)"
    and x2: "monthly_row ''E2'' Null \<in> set (rows sample_monthly)"
    by (simp_all add: sample_monthly_def)
  have b1: "monthly_row ''E1'' (Num 10) ''BMU'' = Str ''E1''"
    and b2: "monthly_row ''E2'' Null ''BMU'' = Str ''E2''"
    by (simp_all add: monthly_row_def)
  have n1: "filter (\<lambda>v. v \<noteq> Null) (group_values sample_monthly ''E1'')
              = map Num [10, 20, 30, 40, 50]"
    unfolding g1 by simp
  from a [rule_format, OF x1 b1] obtain q1 where
    q1: "filter (\<lambda>q. q ''BMU'' = Str ''E1'') (rows p) = [q1]"
    and v1: "q1 ''P90_monthly_error'' = Num (nanpercentile sample_lib [10, 20, 30, 40, 50] 90)"
    unfolding n1 by auto
  have w1: "q1 ''P90_monthly_error'' = Num (percentile_linear [10, 20, 30, 40, 50] 90)"
    using v1 by (simp add: sample_lib_def)
  have n2: "filter (\<lambda>v. v \<noteq> Null) (group_values sample_monthly ''E2'') = []"
    unfolding g2 by simp
  from a [rule_format, OF x2 b2] obtain q2 where
    q2: "filter (\<lambda>q. q ''BMU'' = Str ''E2'') (rows p) = [q2]"
    and w2: "q2 ''P90_monthly_error'' = Null"
    unfolding n2 by auto
  have pc: "percentile_linear [10, 20, 30, 40, 50] 90 = 46"
    by (simp add: percentile_linear_def Let_def)
  show ?thesis
    by (intro exI [of _ p] exI [of _ q1] exI [of _ q2] conjI p g1 q1 w1 pc g2 q2 w2)
qed


text \<open>
  C2. In the enriched annual table the attention flag of a row is True exactly when
  \<open>A_ABS_NetError%\<close> is a number that is at least 25 or \<open>P90_monthly_error\<close>, the joined
  percentile, is a number that is at least 25; a null on one side makes that side False.
  A row with 24 and 26 is flagged; a row with 24 and a null is not.
\<close>

theorem needs_attention_rule:
  assumes "enrich_annual L df_annual df_monthly = Inr e"
  shows "\<forall>x \<in> set (rows e).
           x ''NeedsAttention'' =
             Bool ((\<exists>y. x ''A_ABS_NetError%'' = Num y \<and> 25 \<le> y)
                 \<or> (\<exists>y. x ''P90_monthly_error'' = Num y \<and> 25 \<le> y))"
  by (rule enrich_flag [OF assms])

theorem needs_attention_rule_witness:
  "\<exists>e. enrich_annual sample_lib sample_annual sample_monthly = Inr e
     \<and> map (\<lambda>r. (r ''BMU'', r ''A_ABS_NetError%'', r ''P90_monthly_error'', r ''NeedsAttention''))
         (rows e)
       = [(Str ''E4'', Num 24, Num 26, Bool True), (Str ''E3'', Num 24, Null, Bool False),
          (Str ''E2'', Num 24, Null, Bool False), (Str ''E1'', Num 10, Num 46, Bool True)]"
proof -
  have ev: "(case enrich_annual sample_lib sample_annual sample_monthly of
               Inl e \<Rightarrow> []
             | Inr e \<Rightarrow> map (\<lambda>r. (r ''BMU'', r ''A_ABS_NetError%'', r ''P90_monthly_error''))
                         (rows e))
            = [(Str ''E4'', Num 24, Num 26), (Str ''E3'', Num 24, Null),
               (Str ''E2'', Num 24, Null), (Str ''E1'', Num 10, Num 46)]"
    by code_simp
  then obtain e where e: "enrich_annual sample_lib sample_annual sample_monthly = Inr e"
    by (cases "enrich_annual sample_lib sample_annual sample_monthly") simp_all
  have m: "map (\<lambda>r. (r ''BMU'', r ''A_ABS_NetError%'', r ''P90_monthly_error'')) (rows e)
            = [(Str ''E4'', Num 24, Num 26), (Str ''E3'', Num 24, Null),
               (Str ''E2'', Num 24, Null), (Str ''E1'', Num 10, Num 46)]"
    using ev by (simp add: e)
  let ?flag = "\<lambda>a p. Bool ((\<exists>y. a = Num y \<and> (25::real) \<le> y) \<or> (\<exists>y. p = Num y \<and> (25::real) \<le> y))"
  have "map (\<lambda>r. (r ''BMU'', r ''A_ABS_NetError%'', r ''P90_monthly_error'', r ''NeedsAttention''))
          (rows e)
        = map (\<lambda>r. (r ''BMU'', r ''A_ABS_NetError%'', r ''P90_monthly_error'',
                    ?flag (r ''A_ABS_NetError%'') (r ''P90_monthly_error''))) (rows e)"
    by (rule map_cong [OF refl]) (simp add: needs_attention_rule [OF e])
  also have "\<dots> = map (\<lambda>(b, a, p). (b, a, p, ?flag a p))
        (map (\<lambda>r. (r ''BMU'', r ''A_ABS_NetError%'', r ''P90_monthly_error'')) (rows e))"
    by (simp add: comp_def)
  also have "\<dots> = [(Str ''E4'', Num 24, Num 26, Bool True), (Str ''E3'', Num 24, Null, Bool False),
          (Str ''E2'', Num 24, Null, Bool False), (Str ''E1'', Num 10, Num 46, Bool True)]"
    unfolding m by simp
  finally show ?thesis by (intro exI [of _ e] conjI e)
qed

section \<open>Measures\<close>

text \<open>
  C6. On a table whose \<open>Hour\<close> column holds hours of the day, as the loader derives it
  and the filters keep it (\<open>loaded_hours\<close>, \<open>filtered_loaded_hours\<close>), the daily table
  gives for each date the number of distinct hours among the rows of that date strictly
  above the threshold, which is at most 24, while the first measure of \<open>get_measures\<close> is
  the number of rows strictly above the threshold. On a day when two interconnectors
  trade above the threshold in 13 and in 12 hours the first is 13 and the second is 25.
\<close>

theorem distinct_hours_and_row_counts:
  assumes "\<forall>x \<in> set (rows ff). \<exists>t. x ''Hour'' = Num (real_of_int (dt_hour t))"
    and "daily_data ff thr = Inr dd"
    and "get_measures ff thr = Inr (ic_hours_above, nh, nd, te, av)"
  shows "(\<forall>q \<in> set (rows dd). \<exists>d. q ''Date'' = Day d
           \<and> q ''Hours Over Threshold'' =
               Num (real (card ((\<lambda>x. x ''Hour'') `
                  {x \<in> set (rows ff). x ''Date'' = Day d
                     \<and> cmp_scalar (\<lambda>v. thr < v) (x ''Trade_Abs_MW'') = Inr True})))
           \<and> card ((\<lambda>x. x ''Hour'') `
                  {x \<in> set (rows ff). x ''Date'' = Day d
                     \<and> cmp_scalar (\<lambda>v. thr < v) (x ''Trade_Abs_MW'') = Inr True}) \<le> 24)
       \<and> ic_hours_above =
           length (filter (\<lambda>x. cmp_scalar (\<lambda>v. thr < v) (x ''Trade_Abs_MW'') = Inr True) (rows ff))"
  using hours_over_threshold_typed [OF assms(1) assms(2)] get_measures_count [OF assms(3)]
  by (rule conjI)

theorem distinct_hours_and_row_counts_witness:
  "\<exists>dd ic nh nd te av.
      daily_data sample_busy_day 500 = Inr dd
    \<and> get_measures sample_busy_day 500 = Inr (ic, nh, nd, te, av)
    \<and> map (\<lambda>q. (q ''Date'', q ''Hours Over Threshold'')) (rows dd) = [(Day 20089, Num 13)]
    \<and> map (\<lambda>x. x ''Date'') (rows sample_busy_day) = replicate 25 (Day 20089)
    \<and> ic = 25
    \<and> length (filter (\<lambda>x. cmp_scalar (\<lambda>v. 500 < v) (x ''Trade_Abs_MW'') = Inr True)
                (rows sample_busy_day)) = 25"
proof -
  have key: "\<exists>t. busy_row ic h ''Hour'' = Num (real_of_int (dt_hour t))" if "h < 24" for ic h
  proof (intro exI [of _ "int h * 3600000000000"])
    show "busy_row ic h ''Hour'' = Num (real_of_int (dt_hour (int h * 3600000000000)))"
      using that by (simp add: busy_row_def dt_hour_def)
  qed
  have typed: "\<forall>x \<in> set (rows sample_busy_day). \<exists>t. x ''Hour'' = Num (real_of_int (dt_hour t))"
  proof
    fix x assume "x \<in> set (rows sample_busy_day)"
    then obtain ic h where "x = busy_row ic h" and "h < 24"
      by (auto simp: sample_busy_day_def)
    then show "\<exists>t. x ''Hour'' = Num (real_of_int (dt_hour t))" using key by simp
  qed
  have evd: "(case daily_data sample_busy_day 500 of
               Inl e \<Rightarrow> []
             | Inr dd \<Rightarrow> map (\<lambda>q. (q ''Date'', q ''Hours Over Threshold'')) (rows dd))
             = [(Day 20089, Num 13)]"
    by code_simp
  then obtain dd where dd: "daily_data sample_busy_day 500 = Inr dd"
    by (cases "daily_data sample_busy_day 500") simp_all
  have md: "map (\<lambda>q. (q ''Date'', q ''Hours Over Threshold'')) (rows dd) = [(Day 20089, Num 13)]"
    using evd by (simp add: dd)
  have evm: "(case get_measures sample_busy_day 500 of
               Inl e \<Rightarrow> None | Inr (ic, nh, nd, te, av) \<Rightarrow> Some ic) = Some 25"
    by code_simp
  then obtain ic nh nd te av where
    gm: "get_measures sample_busy_day 500 = Inr (ic, nh, nd, te, av)" and ic: "ic = 25"
    by (cases "get_measures sample_busy_day 500") auto
  have dates: "map (\<lambda>x. x ''Date'') (rows sample_busy_day) = replicate 25 (Day 20089)"
    by code_simp
  have "ic = length (filter (\<lambda>x. cmp_scalar (\<lambda>v. 500 < v) (x ''Trade_Abs_MW'') = Inr True)
                (rows sample_busy_day))"
    using distinct_hours_and_row_counts [OF typed dd gm] by (rule conjunct2)
  then have n: "length (filter (\<lambda>x. cmp_scalar (\<lambda>v. 500 < v) (x ''Trade_Abs_MW'') = Inr True)
                (rows sample_busy_day)) = 25"
    using ic by simp
  show ?thesis
    by (intro exI [of _ dd] exI [of _ ic] exI [of _ nh] exI [of _ nd] exI [of _ te]
          exI [of _ av] conjI dd gm md dates ic n)
qed

section \<open>The filters\<close>

text \<open>
  C4. On a table that has the columns the filters read, an empty fuel selection leaves
  no row, whatever the other selections are, while an empty BMU selection applies no
  BMU test at all: the rows left are those passing the fuel test (and the attention test
  when it is on), so that with every fuel of the table selected and the attention toggle
  off all rows are left.
\<close>

theorem empty_selection_asymmetry:
  assumes "df < length h"
    and "''Fuel'' \<in> set (columns (h ! df))"
    and "''BMU'' \<in> set (columns (h ! df))"
    and "''NeedsAttention'' \<in> set (columns (h ! df))"
  shows "(\<exists>h1 r1. filtered_annual h df [] bmu_filter attention_only = Inr (h1, r1)
            \<and> rows (h1 ! r1) = [])
       \<and> (\<exists>h2 r2. filtered_annual h df fuel_filter [] attention_only = Inr (h2, r2)
            \<and> rows (h2 ! r2) =
                filter (\<lambda>x. x ''Fuel'' \<in> set (map Str fuel_filter)
                     \<and> (attention_only \<longrightarrow>
                           x ''NeedsAttention'' = Bool True \<or> x ''NeedsAttention'' = Num 1))
                  (rows (h ! df)))
       \<and> ((\<forall>x \<in> set (rows (h ! df)). x ''Fuel'' \<in> set (map Str fuel_filter)) \<longrightarrow>
            (\<exists>h3 r3. filtered_annual h df fuel_filter [] False = Inr (h3, r3)
               \<and> rows (h3 ! r3) = rows (h ! df)))"
proof -
  have d: "\<exists>s'. filtered_annual h df ff bf ao = Inr s'" for ff bf ao
    using filtered_annual_defined [OF assms(1) assms(2)] assms(3) assms(4) by simp
  have r: "rows (fst s' ! snd s') =
             filter (\<lambda>x. x ''Fuel'' \<in> set (map Str ff)
                  \<and> (bf \<noteq> [] \<longrightarrow> x ''BMU'' \<in> set (map Str bf))
                  \<and> (ao \<longrightarrow> x ''NeedsAttention'' = Bool True \<or> x ''NeedsAttention'' = Num 1))
               (rows (h ! df))"
    if "filtered_annual h df ff bf ao = Inr s'" for ff bf ao s'
    using narrowed_frame [OF filtered_annual_narrowed(1) [OF that assms(1)]] by simp
  obtain s1 where s1: "filtered_annual h df [] bmu_filter attention_only = Inr s1"
    using d by blast
  have a: "\<exists>h1 r1. filtered_annual h df [] bmu_filter attention_only = Inr (h1, r1)
            \<and> rows (h1 ! r1) = []"
    using s1 r [OF s1] by (cases s1) simp
  obtain s2 where s2: "filtered_annual h df fuel_filter [] attention_only = Inr s2"
    using d by blast
  have b: "\<exists>h2 r2. filtered_annual h df fuel_filter [] attention_only = Inr (h2, r2)
            \<and> rows (h2 ! r2) =
                filter (\<lambda>x. x ''Fuel'' \<in> set (map Str fuel_filter)
                     \<and> (attention_only \<longrightarrow>
                           x ''NeedsAttention'' = Bool True \<or> x ''NeedsAttention'' = Num 1))
                  (rows (h ! df))"
    using s2 r [OF s2] by (cases s2) simp
  obtain s3 where s3: "filtered_annual h df fuel_filter [] False = Inr s3"
    using d by blast
  have c: "(\<forall>x \<in> set (rows (h ! df)). x ''Fuel'' \<in> set (map Str fuel_filter)) \<longrightarrow>
            (\<exists>h3 r3. filtered_annual h df fuel_filter [] False = Inr (h3, r3)
               \<and> rows (h3 ! r3) = rows (h ! df))"
  proof
    assume all: "\<forall>x \<in> set (rows (h ! df)). x ''Fuel'' \<in> set (map Str fuel_filter)"
    have "rows (fst s3 ! snd s3) = filter (\<lambda>x. x ''Fuel'' \<in> set (map Str fuel_filter)) (rows (h ! df))"
      using r [OF s3] by simp
    also have "\<dots> = rows (h ! df)" using all by (simp add: filter_id_conv)
    finally show "\<exists>h3 r3. filtered_annual h df fuel_filter [] False = Inr (h3, r3)
               \<and> rows (h3 ! r3) = rows (h ! df)"
      using s3 by (cases s3) simp
  qed
  show ?thesis using a b c by blast
qed

theorem empty_selection_asymmetry_witness:
  "(\<exists>h1 r1. filtered_annual [sample_enriched] 0 [] [''E1''] False = Inr (h1, r1)
      \<and> rows (h1 ! r1) = [])
   \<and> (\<exists>h3 r3. filtered_annual [sample_enriched] 0 [''Gas'', ''Wind''] [] False = Inr (h3, r3)
      \<and> rows (h3 ! r3) = rows sample_enriched)
   \<and> length (rows sample_enriched) = 2"
proof -
  have c: "(0::nat) < length [sample_enriched]"
    "''Fuel'' \<in> set (columns ([sample_enriched] ! 0))"
    "''BMU'' \<in> set (columns ([sample_enriched] ! 0))"
    "''NeedsAttention'' \<in> set (columns ([sample_enriched] ! 0))"
    by (simp_all add: sample_enriched_def)
  have all: "\<forall>x \<in> set (rows ([sample_enriched] ! 0)). x ''Fuel'' \<in> set (map Str [''Gas'', ''Wind''])"
    by (simp add: sample_enriched_def)
  have n: "length (rows sample_enriched) = 2" by (simp add: sample_enriched_def)
  show ?thesis
    using empty_selection_asymmetry [OF c, of "[''E1'']" False "[''Gas'', ''Wind'']"] all n
    by simp
qed

text \<open>
  C8. When \<open>apply_filters\<close> has returned a subset, calling it on that subset with the same
  date range, groups, interconnectors, direction and partial-hour flag returns too, and
  returns a frame equal to the subset.
\<close>

theorem apply_filters_idempotent:
  assumes "df < length h"
    and "apply_filters h df dr groups_sel ics_sel dir_mode inc_partial = Inr (h1, r1)"
  shows "\<exists>h2 r2. apply_filters h1 r1 dr groups_sel ics_sel dir_mode inc_partial = Inr (h2, r2)
            \<and> h2 ! r2 = h1 ! r1"
  by (rule apply_filters_twice [OF assms])

theorem apply_filters_idempotent_witness:
  "\<exists>h1 r1 h2 r2.
      apply_filters [sample_trades] 0 [20089, 20090] [Str ''IFA'', Str ''NEMO'']
        [Str ''IFA1'', Str ''NEMO''] ''Both'' False = Inr (h1, r1)
    \<and> length (rows (h1 ! r1)) = 1
    \<and> length (rows sample_trades) = 2
    \<and> apply_filters h1 r1 [20089, 20090] [Str ''IFA'', Str ''NEMO'']
        [Str ''IFA1'', Str ''NEMO''] ''Both'' False = Inr (h2, r2)
    \<and> h2 ! r2 = h1 ! r1"
proof -
  have v: "(0::nat) < length [sample_trades]" by simp
  have "filterable [20089, 20090] ''Both'' False ([sample_trades] ! 0)"
    by (simp add: filterable_def sample_trades_def)
  from apply_filters_defined [OF this v, of "[Str ''IFA'', Str ''NEMO'']" "[Str ''IFA1'', Str ''NEMO'']"]
  obtain h1 r1 where a: "apply_filters [sample_trades] 0 [20089, 20090] [Str ''IFA'', Str ''NEMO'']
        [Str ''IFA1'', Str ''NEMO''] ''Both'' False = Inr (h1, r1)" by auto
  have "rows (h1 ! r1) = filter (passes [20089, 20090] [Str ''IFA'', Str ''NEMO'']
        [Str ''IFA1'', Str ''NEMO''] ''Both'' False) (rows ([sample_trades] ! 0))"
    using narrowed_frame [OF apply_filters_narrowed(1) [OF a v]] by simp
  then have n: "length (rows (h1 ! r1)) = 1"
    by (simp add: passes_def sample_trades_def)
  have m: "length (rows sample_trades) = 2" by (simp add: sample_trades_def)
  from apply_filters_idempotent [OF v a] obtain h2 r2 where
    "apply_filters h1 r1 [20089, 20090] [Str ''IFA'', Str ''NEMO'']
        [Str ''IFA1'', Str ''NEMO''] ''Both'' False = Inr (h2, r2) \<and> h2 ! r2 = h1 ! r1"
    by blast
  then show ?thesis using a n m by blast
qed

text \<open>
  C9. Neither filter writes to an object that existed before the call: when
  \<open>apply_filters\<close>, or the sidebar filter of the accuracy dashboard, returns its subset,
  every frame of the store is what it was, the input frame among them, and the subset is
  a new object.
\<close>

theorem filters_leave_input_unchanged:
  assumes "df < length h"
  shows "(apply_filters h df dr groups_sel ics_sel dir_mode inc_partial = Inr (h1, r1) \<longrightarrow>
            take (length h) h1 = h \<and> h1 ! df = h ! df \<and> length h \<le> r1 \<and> r1 < length h1)
       \<and> (filtered_annual h df fuel_filter bmu_filter attention_only = Inr (h2, r2) \<longrightarrow>
            take (length h) h2 = h \<and> h2 ! df = h ! df \<and> length h \<le> r2 \<and> r2 < length h2)"
proof -
  have a: "take (length h) h1 = h \<and> h1 ! df = h ! df \<and> length h \<le> r1 \<and> r1 < length h1"
    if c: "apply_filters h df dr groups_sel ics_sel dir_mode inc_partial = Inr (h1, r1)"
  proof -
    note n = apply_filters_narrowed(1) [OF c assms]
    show ?thesis
      using narrowed_frame_effect [OF n] narrowed_valid [OF n]
        apply_filters_narrowed(3) [OF c assms] by simp
  qed
  have b: "take (length h) h2 = h \<and> h2 ! df = h ! df \<and> length h \<le> r2 \<and> r2 < length h2"
    if c: "filtered_annual h df fuel_filter bmu_filter attention_only = Inr (h2, r2)"
  proof -
    note n = filtered_annual_narrowed(1) [OF c assms]
    show ?thesis
      using narrowed_frame_effect [OF n] narrowed_valid [OF n]
        filtered_annual_narrowed(2) [OF c assms] by simp
  qed
  show ?thesis using a b by blast
qed

theorem filters_leave_input_unchanged_witness:
  "\<exists>h1 r1 h2 r2.
      apply_filters [sample_trades, sample_enriched] 0 [20089, 20090]
        [Str ''IFA'', Str ''NEMO''] [Str ''IFA1'', Str ''NEMO''] ''Import'' False = Inr (h1, r1)
    \<and> take 2 h1 = [sample_trades, sample_enriched] \<and> h1 ! 0 = sample_trades
    \<and> 2 \<le> r1 \<and> r1 < length h1
    \<and> filtered_annual [sample_trades, sample_enriched] 1 [''Gas''] [''E1''] True = Inr (h2, r2)
    \<and> take 2 h2 = [sample_trades, sample_enriched] \<and> h2 ! 1 = sample_enriched
    \<and> 2 \<le> r2 \<and> r2 < length h2"
proof -
  let ?h = "[sample_trades, sample_enriched]"
  have v0: "(0::nat) < length ?h" and v1: "(1::nat) < length ?h" by simp_all
  have "filterable [20089, 20090] ''Import'' False (?h ! 0)"
    by (simp add: filterable_def sample_trades_def)
  from apply_filters_defined [OF this v0, of "[Str ''IFA'', Str ''NEMO'']" "[Str ''IFA1'', Str ''NEMO'']"]
  obtain h1 r1 where a: "apply_filters ?h 0 [20089, 20090] [Str ''IFA'', Str ''NEMO'']
        [Str ''IFA1'', Str ''NEMO''] ''Import'' False = Inr (h1, r1)" by auto
  have "\<exists>s'. filtered_annual ?h 1 [''Gas''] [''E1''] True = Inr s'"
    by (rule filtered_annual_defined [OF v1]) (simp_all add: sample_enriched_def)
  then obtain h2 r2 where b: "filtered_annual ?h 1 [''Gas''] [''E1''] True = Inr (h2, r2)"
    by auto
  have "take (length ?h) h1 = ?h \<and> h1 ! 0 = ?h ! 0 \<and> length ?h \<le> r1 \<and> r1 < length h1"
    using filters_leave_input_unchanged [OF v0, of "[20089, 20090]" "[Str ''IFA'', Str ''NEMO'']"
        "[Str ''IFA1'', Str ''NEMO'']" "''Import''" False h1 r1] a by blast
  moreover have "take (length ?h) h2 = ?h \<and> h2 ! 1 = ?h ! 1 \<and> length ?h \<le> r2 \<and> r2 < length h2"
    using filters_leave_input_unchanged [OF v1, of _ _ _ _ _ _ _ "[''Gas'']" "[''E1'']" True h2 r2] b
    by blast
  ultimately have
    "take 2 h1 = ?h \<and> h1 ! 0 = sample_trades \<and> 2 \<le> r1 \<and> r1 < length h1
     \<and> take 2 h2 = ?h \<and> h2 ! 1 = sample_enriched \<and> 2 \<le> r2 \<and> r2 < length h2"
    by (simp add: numeral_2_eq_2)
  then show ?thesis using a b by blast
qed

section \<open>Properties of the band classification\<close>

lemmas band_defs =
  band_unknown_def band_0_1_def band_1_2_def band_2_4_def band_4_10_def band_over_10_def
  en_dash_def

lemma band_labels_distinct:
  "distinct [band_unknown, band_0_1, band_1_2, band_2_4, band_4_10, band_over_10]"
  by (simp add: band_defs)

text \<open>
  C5. Band classification is a total function into the six labels, which are pairwise
  different, so every input gets exactly one of them. Null is "Unknown"; a number gets
  the first band whose upper bound it is strictly below, so the bands are closed below and
  open above: below 1, [1,2), [2,4), [4,10), and 10 or more. In particular 3.9999 and 2.0
  are both in "2-4%" and 4.0 is in "4-10%".
\<close>

theorem classify_band_half_open:
  "classify_band v \<in> set [band_unknown, band_0_1, band_1_2, band_2_4, band_4_10, band_over_10]
   \<and> distinct [band_unknown, band_0_1, band_1_2, band_2_4, band_4_10, band_over_10]
   \<and> classify_band None = band_unknown
   \<and> classify_band (Some x) \<noteq> band_unknown
   \<and> (classify_band (Some x) = band_0_1) = (x < 1)
   \<and> (classify_band (Some x) = band_1_2) = (1 \<le> x \<and> x < 2)
   \<and> (classify_band (Some x) = band_2_4) = (2 \<le> x \<and> x < 4)
   \<and> (classify_band (Some x) = band_4_10) = (4 \<le> x \<and> x < 10)
   \<and> (classify_band (Some x) = band_over_10) = (10 \<le> x)
   \<and> classify_band (Some 3.9999) = band_2_4
   \<and> classify_band (Some 2.0) = band_2_4
   \<and> classify_band (Some 4.0) = band_4_10"
proof -
  have range: "classify_band v \<in>
      set [band_unknown, band_0_1, band_1_2, band_2_4, band_4_10, band_over_10]"
    by (cases v) simp_all
  have d: "distinct [band_unknown, band_0_1, band_1_2, band_2_4, band_4_10, band_over_10]"
    by (rule band_labels_distinct)
  have num: "classify_band (Some x) \<noteq> band_unknown
    \<and> (classify_band (Some x) = band_0_1) = (x < 1)
    \<and> (classify_band (Some x) = band_1_2) = (1 \<le> x \<and> x < 2)
    \<and> (classify_band (Some x) = band_2_4) = (2 \<le> x \<and> x < 4)
    \<and> (classify_band (Some x) = band_4_10) = (4 \<le> x \<and> x < 10)
    \<and> (classify_band (Some x) = band_over_10) = (10 \<le> x)"
    using d by auto
  have ex: "classify_band (Some 3.9999) = band_2_4 \<and> classify_band (Some 2.0) = band_2_4
    \<and> classify_band (Some 4.0) = band_4_10"
    by simp
  show ?thesis using range d num ex by simp
qed

text \<open>
  C10. No branch of \<open>classify_band\<close> tests for a lower bound: every number strictly
  below 1, negative ones included, is classified "0-1%".
\<close>

theorem classify_band_below_one:
  "x < 1 \<Longrightarrow> classify_band (Some x) = band_0_1"
  by simp

theorem classify_band_below_one_witness:
  "(-5::real) < 1 \<and> classify_band (Some (-5)) = band_0_1
   \<and> band_0_1 = [CHR ''0'', CHR 0xE2, CHR 0x80, CHR 0x93, CHR ''1'', CHR ''%'']"
proof -
  have h: "(-5::real) < 1" by simp
  show ?thesis using h classify_band_below_one [OF h] by (simp add: band_0_1_def en_dash_def)
qed

end
